theory Spec2Isabelle
  imports Main "HOL-Library.Multiset"
begin

section \<open>Python strings\<close>

text \<open>
  A Python \<open>str\<close> is a sequence of Unicode code points, and \<open>len\<close> counts code
  points. A code point is modelled by its number, a string by the list of its code points.
  \<open>str\<close> turns an ASCII literal of the source into such a list.
\<close>

type_synonym codepoint = nat
type_synonym pystr = "codepoint list"

definition str :: "string \<Rightarrow> pystr" where
  "str s = map of_char s"

text \<open>
  \<open>str.isspace\<close> for one code point; it is also what \<open>\s\<close> matches in a \<open>str\<close>
  pattern and what \<open>str.strip()\<close> removes.
\<close>

definition is_space :: "codepoint \<Rightarrow> bool" where
  "is_space c \<longleftrightarrow>
     (9 \<le> c \<and> c \<le> 13) \<or> (28 \<le> c \<and> c \<le> 32) \<or> c = 133 \<or> c = 160 \<or> c = 5760 \<or>
     (8192 \<le> c \<and> c \<le> 8202) \<or> c = 8232 \<or> c = 8233 \<or> c = 8239 \<or> c = 8287 \<or> c = 12288"

definition lstrip :: "pystr \<Rightarrow> pystr" where
  "lstrip s = dropWhile is_space s"

definition rstrip :: "pystr \<Rightarrow> pystr" where
  "rstrip s = rev (dropWhile is_space (rev s))"

definition strip :: "pystr \<Rightarrow> pystr" where
  "strip s = rstrip (lstrip s)"

text \<open>\<open>s.replace(old, "")\<close> for a one-character \<open>old\<close>.\<close>

definition remove_char :: "codepoint \<Rightarrow> pystr \<Rightarrow> pystr" where
  "remove_char c s = filter (\<lambda>d. d \<noteq> c) s"

text \<open>\<open>s.replace(old, new)\<close> for one-character \<open>old\<close> and \<open>new\<close>.\<close>

definition replace_char :: "codepoint \<Rightarrow> codepoint \<Rightarrow> pystr \<Rightarrow> pystr" where
  "replace_char old new s = map (\<lambda>d. if d = old then new else d) s"

text \<open>
  \<open>str.lower()\<close>. The letters \<open>A\<close> to \<open>Z\<close> go to \<open>a\<close> to \<open>z\<close>; outside ASCII, exactly
  two code points have a lower-case form that contains an ASCII character: the Kelvin sign
  U+212A becomes \<open>k\<close>, and U+0130 becomes \<open>i\<close> followed by U+0307. Every other code point
  beyond ASCII is mapped by Python to code points beyond ASCII again; the model leaves those
  unchanged, which is all the callers below, who only look at ASCII characters of the result,
  can observe.
\<close>

definition lower_cp :: "codepoint \<Rightarrow> pystr" where
  "lower_cp c =
     (if 65 \<le> c \<and> c \<le> 90 then [c + 32]
      else if c = 8490 then [107]
      else if c = 304 then [105, 775]
      else [c])"

definition lower :: "pystr \<Rightarrow> pystr" where
  "lower s = concat (map lower_cp s)"

section \<open>The tokenizer\<close>

definition STOPWORDS :: "pystr set" where
  "STOPWORDS = set (map str
     [''the'', ''a'', ''an'', ''and'', ''or'', ''but'', ''to'', ''of'', ''in'', ''on'', ''for'',
      ''with'', ''is'', ''it'', ''this'', ''that'',
      ''i'', ''you'', ''he'', ''she'', ''we'', ''they'', ''me'', ''my'', ''your'', ''our'', ''us'',
      ''at'', ''as'', ''be'', ''are'', ''was'',
      ''were'', ''so'', ''not'', ''do'', ''does'', ''did'', ''from'', ''by'', ''if'', ''then'',
      ''im'', [CHR ''i'', CHR 0x27, CHR ''m''], ''u'', ''ur'', ''lol'',
      ''bro'', ''brev''])"

text \<open>The character class \<open>[a-z0-9']\<close>.\<close>

definition is_word_char :: "codepoint \<Rightarrow> bool" where
  "is_word_char c \<longleftrightarrow> (97 \<le> c \<and> c \<le> 122) \<or> (48 \<le> c \<and> c \<le> 57) \<or> c = 39"

text \<open>
  \<open>re.findall\<close> for a pattern \<open>[...]+\<close> whose class is \<open>P\<close>: the scan tries each position
  from the left; where the class matches, the greedy \<open>+\<close> takes every following character of
  the class and the scan goes on behind the match; elsewhere it moves one character on.
\<close>

function findall_class :: "(codepoint \<Rightarrow> bool) \<Rightarrow> pystr \<Rightarrow> pystr list" where
  "findall_class P [] = []"
| "findall_class P (c # cs) =
     (if P c then (c # takeWhile P cs) # findall_class P (dropWhile P cs)
      else findall_class P cs)"
  by pat_completeness auto
termination
  by (relation "measure (\<lambda>(P, s). length s)")
     (auto simp: length_dropWhile_le less_Suc_eq_le)

definition tokenize :: "pystr \<Rightarrow> pystr list" where
  "tokenize text =
     (let text = lower text;
          tokens = findall_class is_word_char text
      in filter (\<lambda>t. t \<notin> STOPWORDS \<and> length t > 1) tokens)"

section \<open>Timestamps\<close>

text \<open>
  The decimal digits of Unicode 14.0 (CPython 3.11), which \<open>\d\<close> matches in a \<open>str\<close>
  pattern and \<open>int\<close> converts: the blocks of ten consecutive code points that start at
  \<open>decimal_starts\<close>, and the fifty mathematical digits from U+1D7CE.
\<close>

definition decimal_starts :: "codepoint list" where
  "decimal_starts =
     [48, 1632, 1776, 1984, 2406, 2534, 2662, 2790, 2918, 3046, 3174, 3302, 3430, 3558, 3664,
      3792, 3872, 4160, 4240, 6112, 6160, 6470, 6608, 6784, 6800, 6992, 7088, 7232, 7248,
      42528, 43216, 43264, 43472, 43504, 43600, 44016, 65296, 66720, 68912, 69734, 69872,
      69942, 70096, 70384, 70736, 70864, 71248, 71360, 71472, 71904, 72016, 72784, 73040,
      73120, 92768, 92864, 93008, 123200, 123632, 125264, 130032]"

definition decimal_value :: "codepoint \<Rightarrow> nat option" where
  "decimal_value c =
     (if 120782 \<le> c \<and> c < 120832 then Some ((c - 120782) mod 10)
      else map_option (\<lambda>s. c - s) (find (\<lambda>s. s \<le> c \<and> c < s + 10) decimal_starts))"

definition is_digit :: "codepoint \<Rightarrow> bool" where
  "is_digit c \<longleftrightarrow> decimal_value c \<noteq> None"

text \<open>\<open>int(s)\<close> for a string of decimal digits.\<close>

definition int_of_digits :: "pystr \<Rightarrow> nat" where
  "int_of_digits s =
     foldl (\<lambda>n c. 10 * n + (case decimal_value c of None \<Rightarrow> 0 | Some v \<Rightarrow> v)) 0 s"

record datetime =
  year :: nat
  month :: nat
  day :: nat
  hour :: nat
  minute :: nat
  second :: nat

datatype error =
    ValueError
  | IndexError
  | ValidationError "string list"
  | HTTPException nat string

definition is_leap :: "nat \<Rightarrow> bool" where
  "is_leap y \<longleftrightarrow> y mod 4 = 0 \<and> (y mod 100 \<noteq> 0 \<or> y mod 400 = 0)"

definition days_in_month :: "nat \<Rightarrow> nat \<Rightarrow> nat" where
  "days_in_month y m =
     (if m = 2 then (if is_leap y then 29 else 28)
      else if m = 4 \<or> m = 6 \<or> m = 9 \<or> m = 11 then 30 else 31)"

definition between :: "codepoint \<Rightarrow> string \<Rightarrow> string \<Rightarrow> bool" where
  "between c lo hi \<longleftrightarrow> (case (str lo, str hi) of
       ([l], [h]) \<Rightarrow> l \<le> c \<and> c \<le> h | _ \<Rightarrow> False)"

text \<open>
  \<open>datetime.strptime(f"{date_str} {time_str}", "%Y/%m/%d %H:%M:%S")\<close> on the two groups of
  a header line, \<open>dddd/dd/dd\<close> and \<open>dd:dd:dd\<close> with \<open>d\<close> a decimal digit. \<open>strptime\<close>
  matches its own pattern,
  \<^verbatim>\<open>(\d\d\d\d)/(1[0-2]|0[1-9]|[1-9])/(3[0-1]|[1-2]\d|0[1-9]|[1-9]| [1-9])\s+\<close>
  \<^verbatim>\<open>(2[0-3]|[0-1]\d|\d):([0-5]\d|\d):(6[0-1]|[0-5]\d|\d)\<close>,
  against the whole string and raises \<open>ValueError\<close> when it does not match, when text is
  left over, and when the date does not exist (year 0, the day beyond the month's end,
  second 60 or 61). With two digits in every field the one-digit alternatives never apply.
  On other strings than these groups the model answers \<open>ValueError\<close>; the parser never
  passes one.
\<close>

definition strptime :: "pystr \<Rightarrow> pystr \<Rightarrow> error + datetime" where
  "strptime date_str time_str =
     (if length date_str \<noteq> 10 \<or> length time_str \<noteq> 8 then Inl ValueError
      else
        let m1 = date_str ! 5; m2 = date_str ! 6; d1 = date_str ! 8; d2 = date_str ! 9;
            h1 = time_str ! 0; h2 = time_str ! 1; n1 = time_str ! 3; s1 = time_str ! 6;
            y = int_of_digits (take 4 date_str);
            m = int_of_digits [m1, m2];
            d = int_of_digits [d1, d2]
        in
          if \<not> ((m1 = 49 \<and> between m2 ''0'' ''2'') \<or> (m1 = 48 \<and> between m2 ''1'' ''9''))
            then Inl ValueError
          else if \<not> ((d1 = 51 \<and> between d2 ''0'' ''1'') \<or> (between d1 ''1'' ''2'' \<and> is_digit d2)
                      \<or> (d1 = 48 \<and> between d2 ''1'' ''9''))
            then Inl ValueError
          else if \<not> ((h1 = 50 \<and> between h2 ''0'' ''3'') \<or> (between h1 ''0'' ''1'' \<and> is_digit h2))
            then Inl ValueError
          else if \<not> between n1 ''0'' ''5'' then Inl ValueError
          else if \<not> between s1 ''0'' ''5'' then Inl ValueError
          else if y < 1 \<or> days_in_month y m < d then Inl ValueError
          else Inr \<lparr>year = y, month = m, day = d,
                    hour = int_of_digits (take 2 time_str),
                    minute = int_of_digits (take 2 (drop 3 time_str)),
                    second = int_of_digits (take 2 (drop 6 time_str))\<rparr>)"

text \<open>\<open>datetime.weekday()\<close>: Monday is 0; the day number counts from 0001-01-01.\<close>

definition days_before_year :: "nat \<Rightarrow> nat" where
  "days_before_year y = (let p = y - 1 in p * 365 + p div 4 + p div 400 - p div 100)"

definition days_before_month :: "nat \<Rightarrow> nat \<Rightarrow> nat" where
  "days_before_month y m = sum_list (map (days_in_month y) [1..<m])"

definition toordinal :: "datetime \<Rightarrow> nat" where
  "toordinal ts = days_before_year (year ts) + days_before_month (year ts) (month ts) + day ts"

definition weekday :: "datetime \<Rightarrow> nat" where
  "weekday ts = (toordinal ts + 6) mod 7"

text \<open>A number below \<open>10 ^ k\<close> in \<open>k\<close> decimal digits, padded with zeros (\<open>%0kd\<close>).\<close>

fun zpad :: "nat \<Rightarrow> nat \<Rightarrow> pystr" where
  "zpad 0 n = []"
| "zpad (Suc k) n = zpad k (n div 10) @ [48 + n mod 10]"

text \<open>\<open>datetime.isoformat()\<close> of a timestamp without microseconds.\<close>

definition isoformat :: "datetime \<Rightarrow> pystr" where
  "isoformat ts =
     zpad 4 (year ts) @ str ''-'' @ zpad 2 (month ts) @ str ''-'' @ zpad 2 (day ts) @ str ''T'' @
     zpad 2 (hour ts) @ str '':'' @ zpad 2 (minute ts) @ str '':'' @ zpad 2 (second ts)"

definition MONTH_NAMES :: "string list" where
  "MONTH_NAMES = [''January'', ''February'', ''March'', ''April'', ''May'', ''June'', ''July'',
     ''August'', ''September'', ''October'', ''November'', ''December'']"

text \<open>
  \<open>datetime(y, m, 1).strftime("%B %Y")\<close> in the C locale. The constructor raises
  \<open>ValueError\<close> for a month outside 1 to 12 and a year outside 1 to 9999.
\<close>

definition month_label :: "nat \<Rightarrow> nat \<Rightarrow> error + pystr" where
  "month_label y m =
     (if 1 \<le> y \<and> y \<le> 9999 \<and> 1 \<le> m \<and> m \<le> 12
      then Inr (str (MONTH_NAMES ! (m - 1)) @ str '' '' @ zpad 4 y)
      else Inl ValueError)"

definition DOW_NAMES :: "string list" where
  "DOW_NAMES = [''Mon'', ''Tue'', ''Wed'', ''Thu'', ''Fri'', ''Sat'', ''Sun'']"

section \<open>The chat parser\<close>

record chat_record =
  timestamp :: datetime
  sender :: pystr
  message :: pystr

text \<open>
  A sequence of character classes matched at the start of a string; the result is the text
  behind the match.
\<close>

fun match_classes :: "(codepoint \<Rightarrow> bool) list \<Rightarrow> pystr \<Rightarrow> pystr option" where
  "match_classes [] s = Some s"
| "match_classes (p # ps) [] = None"
| "match_classes (p # ps) (c # cs) = (if p c then match_classes ps cs else None)"

definition lit :: "string \<Rightarrow> codepoint \<Rightarrow> bool" where
  "lit a c \<longleftrightarrow> str a = [c]"

text \<open>The fixed-width start of \<open>HEADER_RE\<close>: \<^verbatim>\<open>\[\d{4}/\d{2}/\d{2},\s\d{2}:\d{2}:\d{2}\]\s\<close>.\<close>

definition header_prefix :: "(codepoint \<Rightarrow> bool) list" where
  "header_prefix =
     [lit ''['', is_digit, is_digit, is_digit, is_digit, lit ''/'', is_digit, is_digit,
      lit ''/'', is_digit, is_digit, lit '','', is_space,
      is_digit, is_digit, lit '':'', is_digit, is_digit, lit '':'', is_digit, is_digit,
      lit '']'', is_space]"

text \<open>
  \<open>HEADER_RE.match(line)\<close>, with the four groups of a match. Behind the fixed-width start,
  \<^verbatim>\<open>([^:]+?):\s(.*)$\<close> has one way to match: the sender cannot hold a colon, so it is the
  text before the first colon and must not be empty; a whitespace character follows that
  colon; \<open>.*\<close> takes everything up to the first newline, and \<open>$\<close> accepts the end of the
  string or one final newline.
\<close>

definition HEADER_RE_match :: "pystr \<Rightarrow> (pystr \<times> pystr \<times> pystr \<times> pystr) option" where
  "HEADER_RE_match line =
     (case match_classes header_prefix line of
        None \<Rightarrow> None
      | Some rest \<Rightarrow>
          (let sender = takeWhile (\<lambda>c. c \<noteq> 58) rest
           in case dropWhile (\<lambda>c. c \<noteq> 58) rest of
                colon # w # tail \<Rightarrow>
                  (let msg = takeWhile (\<lambda>c. c \<noteq> 10) tail;
                       left = dropWhile (\<lambda>c. c \<noteq> 10) tail
                   in if sender \<noteq> [] \<and> is_space w \<and> (left = [] \<or> left = [10])
                      then Some (take 10 (drop 1 line), take 8 (drop 13 line), sender, msg)
                      else None)
              | _ \<Rightarrow> None))"

text \<open>
  \<open>str.splitlines()\<close>: a line ends at each of the line boundaries, \<open>\r\n\<close> counting as one;
  the boundaries are not part of the lines, and there is no empty last line. The flag says
  that the character before was \<open>\r\<close>; the second argument is the line read so far, reversed.
\<close>

definition is_linebreak :: "codepoint \<Rightarrow> bool" where
  "is_linebreak c \<longleftrightarrow>
     (10 \<le> c \<and> c \<le> 13) \<or> (28 \<le> c \<and> c \<le> 30) \<or> c = 133 \<or> c = 8232 \<or> c = 8233"

fun splitlines_from :: "bool \<Rightarrow> pystr \<Rightarrow> pystr \<Rightarrow> pystr list" where
  "splitlines_from cr acc [] = (if acc = [] then [] else [rev acc])"
| "splitlines_from cr acc (c # cs) =
     (if cr \<and> c = 10 then splitlines_from False acc cs
      else if is_linebreak c then rev acc # splitlines_from (c = 13) [] cs
      else splitlines_from False (c # acc) cs)"

definition splitlines :: "pystr \<Rightarrow> pystr list" where
  "splitlines content = splitlines_from False [] content"

text \<open>\<open>raw_line.rstrip("\n")\<close>.\<close>

definition rstrip_newline :: "pystr \<Rightarrow> pystr" where
  "rstrip_newline s = rev (dropWhile (\<lambda>c. c = 10) (rev s))"

text \<open>
  The loop of \<open>parse_chat_text\<close>. Its state is the list \<open>records\<close> and the open record
  \<open>current\<close>; \<open>parse_line\<close> is one turn of the loop, and a \<open>ValueError\<close> of \<open>strptime\<close>
  ends the function.
\<close>

type_synonym parse_state = "chat_record list \<times> chat_record option"

definition append_current :: "chat_record list \<Rightarrow> chat_record option \<Rightarrow> chat_record list" where
  "append_current records current =
     (case current of None \<Rightarrow> records | Some r \<Rightarrow> records @ [r])"

definition parse_line :: "parse_state \<Rightarrow> pystr \<Rightarrow> error + parse_state" where
  "parse_line st raw_line =
     (let records = fst st; current = snd st;
          line = rstrip_newline raw_line
      in case HEADER_RE_match line of
           Some (date_str, time_str, sender_str, msg) \<Rightarrow>
             (let records = append_current records current
              in case strptime date_str time_str of
                   Inl e \<Rightarrow> Inl e
                 | Inr ts \<Rightarrow>
                     Inr (records,
                          Some \<lparr>timestamp = ts, sender = strip sender_str, message = strip msg\<rparr>))
         | None \<Rightarrow>
             (case current of
                Some r \<Rightarrow>
                  if strip line \<noteq> []
                  then Inr (records, Some (r\<lparr>message := message r @ [10] @ strip line\<rparr>))
                  else Inr st
              | None \<Rightarrow> Inr st))"

fun parse_lines :: "parse_state \<Rightarrow> pystr list \<Rightarrow> error + parse_state" where
  "parse_lines st [] = Inr st"
| "parse_lines st (l # ls) =
     (case parse_line st l of Inl e \<Rightarrow> Inl e | Inr st' \<Rightarrow> parse_lines st' ls)"

definition parse_chat_text :: "pystr \<Rightarrow> error + chat_record list" where
  "parse_chat_text content =
     (case parse_lines ([], None) (splitlines content) of
        Inl e \<Rightarrow> Inl e
      | Inr (records, current) \<Rightarrow> Inr (append_current records current))"

section \<open>Patterns of the statistics\<close>

text \<open>
  One literal character of a pattern compiled with \<open>re.IGNORECASE\<close>, for the pattern
  characters of \<open>ADMIN_ACTION_RE\<close> (lower-case letters and the space): a letter matches
  itself, its capital, and the code points that Unicode case folding puts with it, U+0130
  and U+0131 with \<open>i\<close>, U+017F with \<open>s\<close>.
\<close>

definition ci_char :: "codepoint \<Rightarrow> codepoint \<Rightarrow> bool" where
  "ci_char p t \<longleftrightarrow>
     t = p \<or> (97 \<le> p \<and> p \<le> 122 \<and> t + 32 = p) \<or>
     (p = 105 \<and> (t = 304 \<or> t = 305)) \<or> (p = 115 \<and> t = 383)"

text \<open>A literal matched at the start of a text; the result is the text behind the match.\<close>

definition ci_literal :: "string \<Rightarrow> pystr \<Rightarrow> pystr option" where
  "ci_literal p s = match_classes (map ci_char (str p)) s"

text \<open>\<open>search\<close>: is there a position of the text where the matcher succeeds?\<close>

fun re_search :: "(pystr \<Rightarrow> bool) \<Rightarrow> pystr \<Rightarrow> bool" where
  "re_search m [] = m []"
| "re_search m (c # cs) = (m (c # cs) \<or> re_search m cs)"

text \<open>
  The alternatives of \<open>ADMIN_ACTION_RE\<close> at one position. In \<open>made.*admin\<close> the dot does
  not match a newline, so \<open>admin\<close> is looked for in the rest of the line behind \<open>made\<close>.
\<close>

definition admin_action_at :: "pystr \<Rightarrow> bool" where
  "admin_action_at s \<longleftrightarrow>
     ci_literal ''created this group'' s \<noteq> None \<or>
     ci_literal ''added'' s \<noteq> None \<or>
     ci_literal ''removed'' s \<noteq> None \<or>
     ci_literal ''changed'' s \<noteq> None \<or>
     ci_literal ''promoted'' s \<noteq> None \<or>
     ci_literal ''omitted'' s \<noteq> None \<or>
     (case ci_literal ''made'' s of
        None \<Rightarrow> False
      | Some rest \<Rightarrow>
          re_search (\<lambda>u. ci_literal ''admin'' u \<noteq> None) (takeWhile (\<lambda>c. c \<noteq> 10) rest))"

definition ADMIN_ACTION_RE_search :: "pystr \<Rightarrow> bool" where
  "ADMIN_ACTION_RE_search s = re_search admin_action_at s"

definition MEDIA_PLACEHOLDERS :: "pystr set" where
  "MEDIA_PLACEHOLDERS =
     {str ''<Media omitted>'', 8206 # str ''<Media omitted>'', str ''image omitted'',
      str ''video omitted'', str ''sticker omitted''}"

definition is_media_message :: "pystr \<Rightarrow> bool" where
  "is_media_message msg =
     (let cleaned = strip (remove_char 8206 msg) in cleaned \<in> MEDIA_PLACEHOLDERS)"

text \<open>The character class of \<open>EMOJI_RE\<close>; \<open>findall\<close> gives each match as a string.\<close>

definition is_emoji :: "codepoint \<Rightarrow> bool" where
  "is_emoji c \<longleftrightarrow>
     (127744 \<le> c \<and> c \<le> 128511) \<or> (128512 \<le> c \<and> c \<le> 128591) \<or>
     (128640 \<le> c \<and> c \<le> 128767) \<or> (127456 \<le> c \<and> c \<le> 127487) \<or>
     (9728 \<le> c \<and> c \<le> 9983) \<or> (9984 \<le> c \<and> c \<le> 10175)"

definition EMOJI_RE_findall :: "pystr \<Rightarrow> pystr list" where
  "EMOJI_RE_findall s = map (\<lambda>c. [c]) (filter is_emoji s)"

section \<open>Frequency tables\<close>

text \<open>
  A \<open>Counter\<close> is a dictionary, which keeps its keys in the order of their first insertion:
  an association list in that order. Counting a key that is present changes its count in
  place; a new key goes to the end.
\<close>

type_synonym 'k counter = "('k \<times> nat) list"

fun counter_add :: "'k \<Rightarrow> 'k counter \<Rightarrow> 'k counter" where
  "counter_add k [] = [(k, 1)]"
| "counter_add k ((k', n) # kvs) =
     (if k = k' then (k', Suc n) # kvs else (k', n) # counter_add k kvs)"

definition counter_update :: "'k counter \<Rightarrow> 'k list \<Rightarrow> 'k counter" where
  "counter_update cnt ks = foldl (\<lambda>c k. counter_add k c) cnt ks"

definition Counter :: "'k list \<Rightarrow> 'k counter" where
  "Counter ks = counter_update [] ks"

text \<open>
  \<open>max(xs, key=f)\<close> and \<open>min(xs, key=f)\<close> on a list with first element \<open>x\<close>: the candidate
  is replaced only by a strictly better element, so the first of several best ones stays.
\<close>

fun max_from :: "('a \<Rightarrow> nat) \<Rightarrow> 'a \<Rightarrow> 'a list \<Rightarrow> 'a" where
  "max_from f best [] = best"
| "max_from f best (x # xs) = max_from f (if f best < f x then x else best) xs"

fun min_from :: "('a \<Rightarrow> nat) \<Rightarrow> 'a \<Rightarrow> 'a list \<Rightarrow> 'a" where
  "min_from f best [] = best"
| "min_from f best (x # xs) = min_from f (if f x < f best then x else best) xs"

definition max_by :: "('a \<Rightarrow> nat) \<Rightarrow> 'a list \<Rightarrow> error + 'a" where
  "max_by f xs = (case xs of [] \<Rightarrow> Inl ValueError | x # rest \<Rightarrow> Inr (max_from f x rest))"

definition min_by :: "('a \<Rightarrow> nat) \<Rightarrow> 'a list \<Rightarrow> error + 'a" where
  "min_by f xs = (case xs of [] \<Rightarrow> Inl ValueError | x # rest \<Rightarrow> Inr (min_from f x rest))"

text \<open>
  \<open>Counter.most_common(n)\<close> is \<open>heapq.nlargest(n, items, key=count)\<close>, which returns what
  \<open>sorted(items, key=count, reverse=True)[:n]\<close> returns: the entries by descending count,
  entries of equal count in the order of the table (the sort is stable). Sorting by the
  negated count with the stable insertion sort \<open>sort_key\<close> is that order.
\<close>

definition most_common :: "nat \<Rightarrow> 'k counter \<Rightarrow> ('k \<times> nat) list" where
  "most_common n cnt = take n (sort_key (\<lambda>kv. - int (snd kv)) cnt)"

definition first_item :: "'a list \<Rightarrow> error + 'a" where
  "first_item xs = (case xs of [] \<Rightarrow> Inl IndexError | x # _ \<Rightarrow> Inr x)"

section \<open>The response model\<close>

text \<open>
  The percentage of the night owl is a Python float. Its arithmetic is not modelled: the
  value is either the literal \<open>0.0\<close> or stands for \<open>round((n / t) * 100, 2)\<close>.
\<close>

datatype pyfloat = Float_zero | Round2_percent nat nat

record peak_month_dict =
  pm_year :: "nat option"
  pm_month :: "nat option"
  pm_label :: "pystr option"
  pm_count :: nat

record longest_dict =
  lm_sender :: pystr
  lm_timestamp :: pystr
  lm_length_chars :: nat
  lm_preview :: pystr

text \<open>
  The fields of \<open>WrappedResponse\<close>. A dictionary with the keys \<open>sender\<close> (or \<open>word\<close>,
  \<open>emoji\<close>, \<open>hour\<close>, \<open>day\<close>) and \<open>count\<close> is the pair of the two values.
\<close>

record wrapped_response =
  total_records :: nat
  total_user_messages :: nat
  total_system_events :: nat
  top_talkers :: "(pystr \<times> nat) list"
  quietest_sender :: "(pystr \<times> nat) option"
  busiest_hour :: "nat option \<times> nat"
  busiest_day_of_week :: "pystr option \<times> nat"
  peak_month :: peak_month_dict
  night_owl :: "nat \<times> pyfloat"
  longest_message :: "longest_dict option"
  most_used_word :: "(pystr \<times> nat) option"
  most_used_emoji :: "(pystr \<times> nat) option"

text \<open>
  The keyword arguments of a call \<open>WrappedResponse(...)\<close>: \<open>None\<close> is a keyword that the
  call does not pass.
\<close>

record wrapped_kwargs =
  kw_total_records :: "nat option"
  kw_total_user_messages :: "nat option"
  kw_total_system_events :: "nat option"
  kw_top_talkers :: "(pystr \<times> nat) list option"
  kw_quietest_sender :: "(pystr \<times> nat) option option"
  kw_busiest_hour :: "(nat option \<times> nat) option"
  kw_busiest_day_of_week :: "(pystr option \<times> nat) option"
  kw_peak_month :: "peak_month_dict option"
  kw_night_owl :: "(nat \<times> pyfloat) option"
  kw_longest_message :: "longest_dict option option"
  kw_most_used_word :: "(pystr \<times> nat) option option"
  kw_most_used_emoji :: "(pystr \<times> nat) option option"

definition no_kwargs :: wrapped_kwargs where
  "no_kwargs =
     \<lparr>kw_total_records = None, kw_total_user_messages = None, kw_total_system_events = None,
      kw_top_talkers = None, kw_quietest_sender = None, kw_busiest_hour = None,
      kw_busiest_day_of_week = None, kw_peak_month = None, kw_night_owl = None,
      kw_longest_message = None, kw_most_used_word = None, kw_most_used_emoji = None\<rparr>"

text \<open>
  \<open>WrappedResponse\<close> is a pydantic \<open>BaseModel\<close> none of whose fields has a default value.
  The library is not part of the repository and the repository pins no version, so the
  version is a parameter. In pydantic 2 every field without a default is required, a field
  of an \<open>Optional\<close> type too, and a call that leaves one out raises \<open>ValidationError\<close>; in
  pydantic 1 a field of an \<open>Optional\<close> type that is left out is \<open>None\<close>.
\<close>

datatype pydantic = Pydantic_1 | Pydantic_2

definition required :: "string \<Rightarrow> 'a option \<Rightarrow> string list" where
  "required name arg = (case arg of None \<Rightarrow> [name] | Some _ \<Rightarrow> [])"

definition required_optional :: "pydantic \<Rightarrow> string \<Rightarrow> 'a option option \<Rightarrow> string list" where
  "required_optional v name arg =
     (case arg of None \<Rightarrow> (if v = Pydantic_2 then [name] else []) | Some _ \<Rightarrow> [])"

definition missing_fields :: "pydantic \<Rightarrow> wrapped_kwargs \<Rightarrow> string list" where
  "missing_fields v kw =
     required ''total_records'' (kw_total_records kw) @
     required ''total_user_messages'' (kw_total_user_messages kw) @
     required ''total_system_events'' (kw_total_system_events kw) @
     required ''top_talkers'' (kw_top_talkers kw) @
     required_optional v ''quietest_sender'' (kw_quietest_sender kw) @
     required ''busiest_hour'' (kw_busiest_hour kw) @
     required ''busiest_day_of_week'' (kw_busiest_day_of_week kw) @
     required ''peak_month'' (kw_peak_month kw) @
     required ''night_owl'' (kw_night_owl kw) @
     required_optional v ''longest_message'' (kw_longest_message kw) @
     required_optional v ''most_used_word'' (kw_most_used_word kw) @
     required_optional v ''most_used_emoji'' (kw_most_used_emoji kw)"

definition optional_value :: "'a option option \<Rightarrow> 'a option" where
  "optional_value arg = (case arg of None \<Rightarrow> None | Some x \<Rightarrow> x)"

definition WrappedResponse :: "pydantic \<Rightarrow> wrapped_kwargs \<Rightarrow> error + wrapped_response" where
  "WrappedResponse v kw =
     (if missing_fields v kw \<noteq> [] then Inl (ValidationError (missing_fields v kw))
      else Inr
        \<lparr>total_records = the (kw_total_records kw),
         total_user_messages = the (kw_total_user_messages kw),
         total_system_events = the (kw_total_system_events kw),
         top_talkers = the (kw_top_talkers kw),
         quietest_sender = optional_value (kw_quietest_sender kw),
         busiest_hour = the (kw_busiest_hour kw),
         busiest_day_of_week = the (kw_busiest_day_of_week kw),
         peak_month = the (kw_peak_month kw),
         night_owl = the (kw_night_owl kw),
         longest_message = optional_value (kw_longest_message kw),
         most_used_word = optional_value (kw_most_used_word kw),
         most_used_emoji = optional_value (kw_most_used_emoji kw)\<rparr>)"

section \<open>The statistics\<close>

text \<open>The year filter at the head of \<open>compute_stats\<close>.\<close>

definition year_filter :: "chat_record list \<Rightarrow> chat_record list" where
  "year_filter records = filter (\<lambda>r. year (timestamp r) = 2025) records"

text \<open>The loop that fills \<open>system_events\<close> and \<open>user_msgs\<close>, one record at a time.\<close>

fun classify ::
  "chat_record list \<Rightarrow> chat_record list \<Rightarrow> chat_record list \<Rightarrow> chat_record list \<times> chat_record list"
where
  "classify system_events user_msgs [] = (system_events, user_msgs)"
| "classify system_events user_msgs (r # rs) =
     (if ADMIN_ACTION_RE_search (message r)
      then classify (system_events @ [r]) user_msgs rs
      else classify system_events (user_msgs @ [r]) rs)"

definition system_events_of :: "chat_record list \<Rightarrow> chat_record list" where
  "system_events_of records = fst (classify [] [] (year_filter records))"

definition user_msgs_of :: "chat_record list \<Rightarrow> chat_record list" where
  "user_msgs_of records = snd (classify [] [] (year_filter records))"

definition is_night :: "datetime \<Rightarrow> bool" where
  "is_night ts \<longleftrightarrow> hour ts \<ge> 22 \<or> hour ts \<le> 4"

definition non_media :: "chat_record list \<Rightarrow> chat_record list" where
  "non_media user_msgs = filter (\<lambda>r. \<not> is_media_message (message r)) user_msgs"

definition longest_of :: "chat_record list \<Rightarrow> longest_dict option" where
  "longest_of user_non_media =
     (case max_by (\<lambda>r. length (message r)) user_non_media of
        Inl _ \<Rightarrow> None
      | Inr lr \<Rightarrow>
          Some \<lparr>lm_sender = sender lr,
                lm_timestamp = isoformat (timestamp lr),
                lm_length_chars = length (message lr),
                lm_preview = take 200 (replace_char 10 32 (message lr))\<rparr>)"

definition word_counter_of :: "chat_record list \<Rightarrow> pystr counter" where
  "word_counter_of user_non_media =
     foldl (\<lambda>cnt r. counter_update cnt (tokenize (message r))) [] user_non_media"

definition emoji_counter_of :: "chat_record list \<Rightarrow> pystr counter" where
  "emoji_counter_of user_non_media =
     foldl (\<lambda>cnt r. let emojis = EMOJI_RE_findall (message r)
                     in if emojis \<noteq> [] then counter_update cnt emojis else cnt)
       [] user_non_media"

text \<open>\<open>most_common(1)[0]\<close> of a table that the source has found not to be empty.\<close>

definition most_of :: "'k counter \<Rightarrow> ('k \<times> nat) option" where
  "most_of cnt =
     (if cnt = [] then None
      else case first_item (most_common 1 cnt) of Inl _ \<Rightarrow> None | Inr kv \<Rightarrow> Some kv)"

definition compute_stats :: "pydantic \<Rightarrow> chat_record list \<Rightarrow> error + wrapped_response" where
  "compute_stats v records =
     (let records = year_filter records;
          (system_events, user_msgs) = classify [] [] records;
          total_recs = length records;
          total_user = length user_msgs;
          total_sys = length system_events
      in
      if total_user = 0 then
        WrappedResponse v (no_kwargs
          \<lparr>kw_total_records := Some total_recs,
           kw_total_user_messages := Some 0,
           kw_total_system_events := Some total_sys,
           kw_top_talkers := Some [],
           kw_quietest_sender := Some None,
           kw_busiest_hour := Some (None, 0),
           kw_busiest_day_of_week := Some (None, 0),
           kw_peak_month := Some \<lparr>pm_year = None, pm_month = None, pm_label = None, pm_count = 0\<rparr>,
           kw_night_owl := Some (0, Float_zero),
           kw_longest_message := Some None,
           kw_most_used_word := Some None\<rparr>)
      else
        let sender_counts = Counter (map sender user_msgs);
            talkers = most_common 10 sender_counts
        in
        (case min_by snd sender_counts of
           Inl e \<Rightarrow> Inl e
         | Inr (quiet_sender, quiet_count) \<Rightarrow>
        let hour_counts = Counter (map (\<lambda>r. hour (timestamp r)) user_msgs)
        in
        (case first_item (most_common 1 hour_counts) of
           Inl e \<Rightarrow> Inl e
         | Inr (busiest_hr, busiest_hr_count) \<Rightarrow>
        let dow_counts = Counter (map (\<lambda>r. weekday (timestamp r)) user_msgs)
        in
        (case first_item (most_common 1 dow_counts) of
           Inl e \<Rightarrow> Inl e
         | Inr (busiest_dow, busiest_dow_count) \<Rightarrow>
        let month_counts =
              Counter (map (\<lambda>r. (year (timestamp r), month (timestamp r))) user_msgs)
        in
        (case first_item (most_common 1 month_counts) of
           Inl e \<Rightarrow> Inl e
         | Inr ((peak_year, peak_mon), peak_mon_count) \<Rightarrow>
        (case month_label peak_year peak_mon of
           Inl e \<Rightarrow> Inl e
         | Inr peak_label \<Rightarrow>
        let night_count = length (filter (\<lambda>r. is_night (timestamp r)) user_msgs);
            night_percent = Round2_percent night_count total_user;
            user_non_media = non_media user_msgs;
            longest = longest_of user_non_media;
            most_word = most_of (word_counter_of user_non_media);
            most_emoji = most_of (emoji_counter_of user_non_media)
        in
        if \<not> busiest_dow < length DOW_NAMES then Inl IndexError
        else
        WrappedResponse v (no_kwargs
          \<lparr>kw_total_records := Some total_recs,
           kw_total_user_messages := Some total_user,
           kw_total_system_events := Some total_sys,
           kw_top_talkers := Some talkers,
           kw_quietest_sender := Some (Some (quiet_sender, quiet_count)),
           kw_busiest_hour := Some (Some busiest_hr, busiest_hr_count),
           kw_busiest_day_of_week := Some (Some (str (DOW_NAMES ! busiest_dow)), busiest_dow_count),
           kw_peak_month := Some \<lparr>pm_year = Some peak_year, pm_month = Some peak_mon,
                                  pm_label = Some peak_label, pm_count = peak_mon_count\<rparr>,
           kw_night_owl := Some (night_count, night_percent),
           kw_longest_message := Some longest,
           kw_most_used_word := Some most_word,
           kw_most_used_emoji := Some most_emoji\<rparr>)))))))"

section \<open>The endpoint\<close>

text \<open>\<open>s.endswith(t)\<close>.\<close>

definition endswith :: "pystr \<Rightarrow> pystr \<Rightarrow> bool" where
  "endswith s t \<longleftrightarrow> length t \<le> length s \<and> drop (length s - length t) s = t"

text \<open>
  The handler \<open>wrapped\<close>. The upload is given by its file name, the number of its bytes and
  the outcome of the two decoding attempts (\<open>None\<close> when both raise \<open>UnicodeDecodeError\<close>);
  the decoders themselves are not modelled.
\<close>

definition wrapped :: "pydantic \<Rightarrow> pystr \<Rightarrow> nat \<Rightarrow> pystr option \<Rightarrow> error + wrapped_response" where
  "wrapped v filename raw_len decoded =
     (if \<not> endswith (lower filename) (str ''.txt'')
      then Inl (HTTPException 400 ''Please upload a .txt WhatsApp export file.'')
      else if raw_len > 5 * 1024 * 1024
      then Inl (HTTPException 413 ''File too large (max 5MB).'')
      else case decoded of
        None \<Rightarrow>
          Inl (HTTPException 400 ''Could not decode file. Try exporting again or use UTF-8.'')
      | Some text \<Rightarrow>
          (case parse_chat_text text of
             Inl e \<Rightarrow> Inl e
           | Inr records \<Rightarrow>
               if records = []
               then Inl (HTTPException 400
                 ''No WhatsApp messages detected. Make sure this is the raw exported chat .txt.'')
               else compute_stats v records))"

section \<open>Vocabulary of the properties\<close>

text \<open>
  The keys of a list in the order in which they are first met, and what it means to be the
  first of the best: \<open>first_max_in f xs x\<close> says that \<open>x\<close> is an element of \<open>xs\<close> with the
  largest \<open>f\<close>, and the earliest of these; \<open>is_mode ks (k, c)\<close> says that \<open>k\<close> occurs \<open>c\<close>
  times in \<open>ks\<close>, no key occurs more often, and every key met before the first \<open>k\<close>
  occurs less often. \<open>first_min_in\<close> and \<open>is_rarest\<close> are the same for the smallest.
\<close>

fun first_seen :: "'a list \<Rightarrow> 'a list" where
  "first_seen [] = []"
| "first_seen (x # xs) = x # filter (\<lambda>y. y \<noteq> x) (first_seen xs)"

definition first_max_in :: "('a \<Rightarrow> nat) \<Rightarrow> 'a list \<Rightarrow> 'a \<Rightarrow> bool" where
  "first_max_in f xs x \<longleftrightarrow>
     (\<exists>pre post. xs = pre @ x # post \<and> (\<forall>y\<in>set pre. f y < f x) \<and> (\<forall>y\<in>set post. f y \<le> f x))"

definition first_min_in :: "('a \<Rightarrow> nat) \<Rightarrow> 'a list \<Rightarrow> 'a \<Rightarrow> bool" where
  "first_min_in f xs x \<longleftrightarrow>
     (\<exists>pre post. xs = pre @ x # post \<and> (\<forall>y\<in>set pre. f x < f y) \<and> (\<forall>y\<in>set post. f x \<le> f y))"

definition is_mode :: "'a list \<Rightarrow> 'a \<times> nat \<Rightarrow> bool" where
  "is_mode ks kc \<longleftrightarrow>
     fst kc \<in> set ks \<and> snd kc = count_list ks (fst kc) \<and>
     (\<forall>k\<in>set ks. count_list ks k \<le> snd kc) \<and>
     (\<forall>k\<in>set (takeWhile (\<lambda>x. x \<noteq> fst kc) ks). count_list ks k < snd kc)"

definition is_rarest :: "'a list \<Rightarrow> 'a \<times> nat \<Rightarrow> bool" where
  "is_rarest ks kc \<longleftrightarrow>
     fst kc \<in> set ks \<and> snd kc = count_list ks (fst kc) \<and>
     (\<forall>k\<in>set ks. snd kc \<le> count_list ks k) \<and>
     (\<forall>k\<in>set (takeWhile (\<lambda>x. x \<noteq> fst kc) ks). snd kc < count_list ks k)"

text \<open>
  The maximal runs of the characters of a class \<open>P\<close> in a string, from left to right: a
  string without such a character has none; otherwise the string is a gap without such
  characters, then a run of them that is not empty and ends at the end of the string or
  before a character outside the class, then a rest with its own runs.
\<close>

inductive maximal_runs :: "('a \<Rightarrow> bool) \<Rightarrow> 'a list \<Rightarrow> 'a list list \<Rightarrow> bool" for P where
  no_run: "\<forall>c\<in>set s. \<not> P c \<Longrightarrow> maximal_runs P s []"
| run: "\<forall>c\<in>set gap. \<not> P c \<Longrightarrow> t \<noteq> [] \<Longrightarrow> \<forall>c\<in>set t. P c \<Longrightarrow>
        rest = [] \<or> \<not> P (hd rest) \<Longrightarrow> maximal_runs P rest ts \<Longrightarrow>
        maximal_runs P (gap @ t @ rest) (t # ts)"

text \<open>The timestamps that a Python \<open>datetime\<close> can hold.\<close>

definition valid_datetime :: "datetime \<Rightarrow> bool" where
  "valid_datetime ts \<longleftrightarrow>
     1 \<le> year ts \<and> year ts \<le> 9999 \<and> 1 \<le> month ts \<and> month ts \<le> 12 \<and>
     1 \<le> day ts \<and> day ts \<le> days_in_month (year ts) (month ts) \<and>
     hour ts < 24 \<and> minute ts < 60 \<and> second ts < 60"

text \<open>The result of \<open>compute_stats\<close> when there is no user message.\<close>

definition empty_result :: "nat \<Rightarrow> nat \<Rightarrow> wrapped_response" where
  "empty_result n n_sys =
     \<lparr>total_records = n, total_user_messages = 0, total_system_events = n_sys,
      top_talkers = [], quietest_sender = None, busiest_hour = (None, 0),
      busiest_day_of_week = (None, 0),
      peak_month = \<lparr>pm_year = None, pm_month = None, pm_label = None, pm_count = 0\<rparr>,
      night_owl = (0, Float_zero), longest_message = None, most_used_word = None,
      most_used_emoji = None\<rparr>"

section \<open>A sample chat\<close>

text \<open>
  Two messages of one evening, the second a media placeholder; \<open>example_text\<close> is the
  export that holds them, \<open>lrm_record\<close> a placeholder with the left-to-right mark
  inside its word.
\<close>

definition example_text :: pystr where
  "example_text = str ''[2025/01/05, 22:15:03] Alice: hello world'' @ [10] @
     str ''[2025/01/05, 22:16:00] Bob: <Media omitted>''"

definition alice_record :: chat_record where
  "alice_record =
     \<lparr>timestamp = \<lparr>year = 2025, month = 1, day = 5, hour = 22, minute = 15, second = 3\<rparr>,
      sender = str ''Alice'', message = str ''hello world''\<rparr>"

definition bob_record :: chat_record where
  "bob_record =
     \<lparr>timestamp = \<lparr>year = 2025, month = 1, day = 5, hour = 22, minute = 16, second = 0\<rparr>,
      sender = str ''Bob'', message = str ''<Media omitted>''\<rparr>"

definition lrm_record :: chat_record where
  "lrm_record =
     \<lparr>timestamp = \<lparr>year = 2025, month = 1, day = 6, hour = 9, minute = 0, second = 0\<rparr>,
      sender = str ''Carol'', message = str ''image omi'' @ [8206] @ str ''tted''\<rparr>"

text \<open>An export whose only message is of another year.\<close>

definition year_2024_text :: pystr where
  "year_2024_text = str ''[2024/12/31, 23:59:00] Alice: happy new year''"

text \<open>
  The result for \<open>example_text\<close>, and the numbers that the specification's example
  states for it.
\<close>

definition example_result :: wrapped_response where
  "example_result =
     \<lparr>total_records = 2, total_user_messages = 1, total_system_events = 1,
      top_talkers = [(str ''Alice'', 1)],
      quietest_sender = Some (str ''Alice'', 1),
      busiest_hour = (Some 22, 1),
      busiest_day_of_week = (Some (str ''Sun''), 1),
      peak_month = \<lparr>pm_year = Some 2025, pm_month = Some 1,
                     pm_label = Some (str ''January 2025''), pm_count = 1\<rparr>,
      night_owl = (1, Round2_percent 1 1),
      longest_message =
        Some \<lparr>lm_sender = str ''Alice'', lm_timestamp = str ''2025-01-05T22:15:03'',
              lm_length_chars = 11, lm_preview = str ''hello world''\<rparr>,
      most_used_word = Some (str ''hello'', 1),
      most_used_emoji = None\<rparr>"

definition spec_example_holds :: "wrapped_response \<Rightarrow> bool" where
  "spec_example_holds res \<longleftrightarrow>
     total_records res = 2 \<and> total_user_messages res = 2 \<and> fst (night_owl res) = 2 \<and>
     map_option lm_sender (longest_message res) = Some (str ''Alice'') \<and>
     most_used_word res = Some (str ''hello'', 1)"

text \<open>
  A text none of whose lines has the header shape, a text for the tokenizer, and three
  messages of one morning; the second and the third have bodies of the same length, the
  second in two lines.
\<close>

definition no_header_text :: pystr where
  "no_header_text = str ''hello'' @ [10] @ str ''05/01/2025, 22:15 - Alice: hi''"

definition token_text :: pystr where
  "token_text = str ''The BRO said Hello, hello to a cat's 4x4''"

definition short_record :: chat_record where
  "short_record =
     \<lparr>timestamp = \<lparr>year = 2025, month = 3, day = 9, hour = 7, minute = 30, second = 0\<rparr>,
      sender = str ''Dan'', message = str ''hi''\<rparr>"

definition two_line_record :: chat_record where
  "two_line_record =
     \<lparr>timestamp = \<lparr>year = 2025, month = 3, day = 9, hour = 8, minute = 5, second = 59\<rparr>,
      sender = str ''Eve'', message = str ''ab'' @ [10] @ str ''cd''\<rparr>"

definition same_length_record :: chat_record where
  "same_length_record =
     \<lparr>timestamp = \<lparr>year = 2025, month = 3, day = 9, hour = 8, minute = 6, second = 0\<rparr>,
      sender = str ''Dan'', message = str ''hello''\<rparr>"

text \<open>
  A message with two emoji, each once: the regional indicator U+1F1E0, the first code
  point of the flag range of \<open>EMOJI_RE\<close>, and then the face U+1F600.
\<close>

definition emoji_record :: chat_record where
  "emoji_record =
     \<lparr>timestamp = \<lparr>year = 2025, month = 3, day = 10, hour = 12, minute = 0, second = 0\<rparr>,
      sender = str ''Eve'', message = str ''ok '' @ [127456, 128512]\<rparr>"

section \<open>Evaluation\<close>

lemmas eval_defs = str_def is_space_def lstrip_def rstrip_def strip_def remove_char_def
  replace_char_def lower_cp_def lower_def STOPWORDS_def is_word_char_def tokenize_def
  decimal_starts_def decimal_value_def is_digit_def int_of_digits_def is_leap_def
  days_in_month_def between_def strptime_def days_before_year_def days_before_month_def
  toordinal_def weekday_def isoformat_def MONTH_NAMES_def month_label_def DOW_NAMES_def
  lit_def header_prefix_def HEADER_RE_match_def is_linebreak_def splitlines_def
  rstrip_newline_def append_current_def parse_line_def parse_chat_text_def

lemmas stat_defs = ci_char_def ci_literal_def admin_action_at_def ADMIN_ACTION_RE_search_def
  MEDIA_PLACEHOLDERS_def is_media_message_def is_emoji_def EMOJI_RE_findall_def
  counter_update_def Counter_def max_by_def min_by_def most_common_def first_item_def
  required_def required_optional_def missing_fields_def optional_value_def
  WrappedResponse_def no_kwargs_def year_filter_def is_night_def non_media_def
  longest_of_def word_counter_of_def emoji_counter_of_def most_of_def endswith_def

lemma zpad_2: "zpad 2 n = [48 + n div 10 mod 10, 48 + n mod 10]"
proof -
  have "zpad (Suc (Suc 0)) n = [48 + n div 10 mod 10, 48 + n mod 10]" by simp
  then show ?thesis by (simp only: numeral_2_eq_2)
qed

lemma zpad_4:
  "zpad 4 n = [48 + n div 10 div 10 div 10 mod 10, 48 + n div 10 div 10 mod 10,
               48 + n div 10 mod 10, 48 + n mod 10]"
proof -
  have "zpad (Suc (Suc (Suc (Suc 0)))) n =
    [48 + n div 10 div 10 div 10 mod 10, 48 + n div 10 div 10 mod 10,
     48 + n div 10 mod 10, 48 + n mod 10]" by simp
  moreover have "(4::nat) = Suc (Suc (Suc (Suc 0)))" by simp
  ultimately show ?thesis by (simp only:)
qed

lemma parse_example: "parse_chat_text example_text = Inr [alice_record, bob_record]"
  by (simp add: eval_defs example_text_def alice_record_def bob_record_def Let_def)

lemma admin_bob: "ADMIN_ACTION_RE_search (message bob_record)"
  by (simp add: bob_record_def eval_defs stat_defs)

lemma admin_alice: "\<not> ADMIN_ACTION_RE_search (message alice_record)"
  by (simp add: alice_record_def eval_defs stat_defs)

lemma admin_lrm: "\<not> ADMIN_ACTION_RE_search (message lrm_record)"
  by (simp add: lrm_record_def eval_defs stat_defs)

lemma media_alice: "\<not> is_media_message (message alice_record)"
  by (simp add: alice_record_def eval_defs stat_defs)

lemma media_bob: "is_media_message (message bob_record)"
  by (simp add: bob_record_def eval_defs stat_defs)

lemma media_lrm: "is_media_message (message lrm_record)"
  by (simp add: lrm_record_def eval_defs stat_defs)

section \<open>Frequency tables, first maxima and stable sorting\<close>

lemma set_first_seen [simp]: "set (first_seen xs) = set xs"
  by (induction xs) auto

lemma distinct_first_seen [simp]: "distinct (first_seen xs)"
  by (induction xs) auto

lemma first_seen_append:
  "first_seen (xs @ ys) = first_seen xs @ filter (\<lambda>y. y \<notin> set xs) (first_seen ys)"
  by (induction xs) (auto simp: conj_commute)

lemma counter_add_map:
  "distinct L \<Longrightarrow>
   counter_add k (map (\<lambda>x. (x, f x)) L) =
     (if k \<in> set L then map (\<lambda>x. (x, if x = k then Suc (f x) else f x)) L
      else map (\<lambda>x. (x, f x)) L @ [(k, 1)])"
  by (induction L) auto

lemma count_list_snoc: "count_list (xs @ [k]) x = count_list xs x + (if x = k then 1 else 0)"
  by (induction xs) auto

lemma Counter_snoc: "Counter (ks @ [k]) = counter_add k (Counter ks)"
  by (simp add: Counter_def counter_update_def)

lemma counter_update_append:
  "counter_update cnt (xs @ ys) = counter_update (counter_update cnt xs) ys"
  by (simp add: counter_update_def)

lemma Counter_eq: "Counter ks = map (\<lambda>k. (k, count_list ks k)) (first_seen ks)"
proof (induction ks rule: rev_induct)
  case Nil
  show ?case by (simp add: Counter_def counter_update_def)
next
  case (snoc k ks)
  show ?case
    by (auto simp: Counter_snoc snoc counter_add_map first_seen_append count_list_snoc
        count_list_0_iff)
qed

lemma counter_update_Counter: "counter_update (Counter xs) ys = Counter (xs @ ys)"
  by (simp add: Counter_def counter_update_def)

lemma max_from_decomp:
  "(\<forall>y\<in>set pre. f y < f b) \<Longrightarrow> (\<forall>y\<in>set mid. f y \<le> f b) \<Longrightarrow>
   \<exists>p q. pre @ b # mid @ xs = p @ max_from f b xs # q \<and>
     (\<forall>y\<in>set p. f y < f (max_from f b xs)) \<and> (\<forall>y\<in>set q. f y \<le> f (max_from f b xs))"
proof (induction xs arbitrary: b pre mid)
  case Nil
  then show ?case by auto
next
  case (Cons x xs)
  show ?case
  proof (cases "f b < f x")
    case True
    have "\<forall>y\<in>set (pre @ b # mid). f y < f x"
      using Cons.prems True by (auto intro: less_trans le_less_trans)
    from Cons.IH [OF this, of "[]"] True show ?thesis by simp
  next
    case False
    have "\<forall>y\<in>set (mid @ [x]). f y \<le> f b" using Cons.prems False by auto
    from Cons.IH [OF Cons.prems(1) this] False show ?thesis by simp
  qed
qed

lemma min_from_decomp:
  "(\<forall>y\<in>set pre. f b < f y) \<Longrightarrow> (\<forall>y\<in>set mid. f b \<le> f y) \<Longrightarrow>
   \<exists>p q. pre @ b # mid @ xs = p @ min_from f b xs # q \<and>
     (\<forall>y\<in>set p. f (min_from f b xs) < f y) \<and> (\<forall>y\<in>set q. f (min_from f b xs) \<le> f y)"
proof (induction xs arbitrary: b pre mid)
  case Nil
  then show ?case by auto
next
  case (Cons x xs)
  show ?case
  proof (cases "f x < f b")
    case True
    have "\<forall>y\<in>set (pre @ b # mid). f x < f y"
      using Cons.prems True by (auto intro: less_trans less_le_trans)
    from Cons.IH [OF this, of "[]"] True show ?thesis by simp
  next
    case False
    have "\<forall>y\<in>set (mid @ [x]). f b \<le> f y" using Cons.prems False by auto
    from Cons.IH [OF Cons.prems(1) this] False show ?thesis by simp
  qed
qed

lemma max_by_first_max: "max_by f xs = Inr x \<Longrightarrow> first_max_in f xs x"
  using max_from_decomp [of "[]" f _ "[]"]
  by (auto simp: max_by_def first_max_in_def split: list.splits)

lemma min_by_first_min: "min_by f xs = Inr x \<Longrightarrow> first_min_in f xs x"
  using min_from_decomp [of "[]" f _ "[]"]
  by (auto simp: min_by_def first_min_in_def split: list.splits)

lemma max_by_Inr: "xs \<noteq> [] \<Longrightarrow> \<exists>x. max_by f xs = Inr x"
  by (cases xs) (auto simp: max_by_def)

lemma min_by_Inr: "xs \<noteq> [] \<Longrightarrow> \<exists>x. min_by f xs = Inr x"
  by (cases xs) (auto simp: min_by_def)

lemma hd_sort_key_decomp:
  fixes f :: "'a \<Rightarrow> 'b::linorder"
  assumes "xs \<noteq> []"
  shows "\<exists>pre post. xs = pre @ hd (sort_key f xs) # post \<and>
           (\<forall>y\<in>set pre. f (hd (sort_key f xs)) < f y) \<and>
           (\<forall>y\<in>set post. f (hd (sort_key f xs)) \<le> f y)"
proof -
  define s where "s = sort_key f xs"
  from assms have "s \<noteq> []" unfolding s_def by (metis length_0_conv length_sort)
  then obtain x t where s: "s = x # t" by (cases s) auto
  have "sorted (map f s)" unfolding s_def by simp
  then have le: "\<forall>y\<in>set xs. f x \<le> f y"
    using s set_sort [of f xs] unfolding s_def by auto
  have "filter (\<lambda>y. f y = f x) s = filter (\<lambda>y. f y = f x) xs"
    unfolding s_def by (rule sort_key_stable)
  then have "filter (\<lambda>y. f y = f x) xs = x # filter (\<lambda>y. f y = f x) t"
    using s by simp
  then obtain us vs where xs: "xs = us @ x # vs" and us: "\<forall>u\<in>set us. f u \<noteq> f x"
    unfolding filter_eq_Cons_iff by blast
  have "\<forall>y\<in>set us. f x < f y"
    using us le xs by (auto simp: less_le)
  moreover have "\<forall>y\<in>set vs. f x \<le> f y" using le xs by auto
  ultimately show ?thesis using xs s unfolding s_def by auto
qed

lemma most_common_1_first_max:
  assumes "first_item (most_common 1 cnt) = Inr kv"
  shows "first_max_in snd cnt kv"
proof -
  let ?f = "\<lambda>kv. - int (snd kv)"
  have ne: "cnt \<noteq> []" using assms by (auto simp: first_item_def most_common_def)
  then have "sort_key ?f cnt \<noteq> []" by (metis length_0_conv length_sort)
  then have kv: "kv = hd (sort_key ?f cnt)"
    using assms by (cases "sort_key ?f cnt") (auto simp: first_item_def most_common_def)
  from hd_sort_key_decomp [OF ne, of ?f] show ?thesis
    unfolding first_max_in_def kv by auto
qed

lemma most_common_1_Inr: "cnt \<noteq> [] \<Longrightarrow> \<exists>kv. first_item (most_common 1 cnt) = Inr kv"
proof -
  assume "cnt \<noteq> []"
  then have "sort_key (\<lambda>kv. - int (snd kv)) cnt \<noteq> []" by (metis length_0_conv length_sort)
  then show ?thesis
    by (cases "sort_key (\<lambda>kv. - int (snd kv)) cnt") (auto simp: first_item_def most_common_def)
qed

lemma first_seen_takeWhile:
  assumes "k \<in> set ks"
  shows "\<exists>rest. first_seen ks = first_seen (takeWhile (\<lambda>x. x \<noteq> k) ks) @ k # rest"
proof -
  let ?P = "\<lambda>x. x \<noteq> k"
  have ne: "dropWhile ?P ks \<noteq> []" using assms by (simp add: dropWhile_eq_Nil_conv)
  then have "hd (dropWhile ?P ks) = k" using hd_dropWhile [of ?P ks] by simp
  with ne obtain post where "dropWhile ?P ks = k # post" by (cases "dropWhile ?P ks") auto
  then have ks: "ks = takeWhile ?P ks @ k # post"
    using takeWhile_dropWhile_id [of ?P ks] by simp
  have "k \<notin> set (takeWhile ?P ks)" by (auto dest: set_takeWhileD)
  then show ?thesis
    by (subst ks) (simp add: first_seen_append)
qed

lemma takeWhile_until: "k \<notin> set a \<Longrightarrow> takeWhile (\<lambda>x. x \<noteq> k) (a @ k # b) = a"
  by (induction a) auto

lemma distinct_decomp_unique:
  assumes "distinct xs" and "xs = a @ k # b" and "xs = a' @ k # b'"
  shows "a = a'"
proof -
  have "distinct (a @ k # b)" and "distinct (a' @ k # b')" using assms by simp_all
  then have a: "k \<notin> set a" and a': "k \<notin> set a'" by simp_all
  have "takeWhile (\<lambda>x. x \<noteq> k) (a @ k # b) = a" by (rule takeWhile_until [OF a])
  moreover have "takeWhile (\<lambda>x. x \<noteq> k) (a' @ k # b') = a'" by (rule takeWhile_until [OF a'])
  ultimately show ?thesis using assms(2,3) by simp
qed

lemma first_in_Counter:
  assumes "Counter ks = pre @ (k, c) # post"
  shows "k \<in> set ks" and "c = count_list ks k"
    and "set pre = (\<lambda>x. (x, count_list ks x)) ` set (takeWhile (\<lambda>x. x \<noteq> k) ks)"
proof -
  let ?g = "\<lambda>x. (x, count_list ks x)"
  have eq: "map ?g (first_seen ks) = pre @ (k, c) # post"
    using assms by (simp add: Counter_eq)
  then obtain a b where fs: "first_seen ks = a @ k # b" and pre: "pre = map ?g a"
    and c: "(k, c) = ?g k"
    by (auto simp: map_eq_append_conv map_eq_Cons_conv)
  show k: "k \<in> set ks" using fs by (metis in_set_conv_decomp set_first_seen)
  show "c = count_list ks k" using c by simp
  from first_seen_takeWhile [OF k] obtain rest where
    "first_seen ks = first_seen (takeWhile (\<lambda>x. x \<noteq> k) ks) @ k # rest" ..
  then have "a = first_seen (takeWhile (\<lambda>x. x \<noteq> k) ks)"
    by (rule distinct_decomp_unique [OF distinct_first_seen fs])
  then show "set pre = ?g ` set (takeWhile (\<lambda>x. x \<noteq> k) ks)"
    using pre by simp
qed

lemma set_Counter: "set (Counter ks) = (\<lambda>x. (x, count_list ks x)) ` set ks"
  by (simp add: Counter_eq)

lemma first_max_in_Counter: "first_max_in snd (Counter ks) kc \<Longrightarrow> is_mode ks kc"
proof -
  assume "first_max_in snd (Counter ks) kc"
  then obtain pre post where d: "Counter ks = pre @ (fst kc, snd kc) # post"
    and pre: "\<forall>y\<in>set pre. snd y < snd kc" and post: "\<forall>y\<in>set post. snd y \<le> snd kc"
    unfolding first_max_in_def by auto
  have all: "\<forall>y\<in>set (Counter ks). snd y \<le> snd kc"
    using pre post unfolding d by (auto intro: less_imp_le)
  show ?thesis
    unfolding is_mode_def
    using first_in_Counter [OF d] pre all unfolding set_Counter by auto
qed

lemma first_min_in_Counter: "first_min_in snd (Counter ks) kc \<Longrightarrow> is_rarest ks kc"
proof -
  assume "first_min_in snd (Counter ks) kc"
  then obtain pre post where d: "Counter ks = pre @ (fst kc, snd kc) # post"
    and pre: "\<forall>y\<in>set pre. snd kc < snd y" and post: "\<forall>y\<in>set post. snd kc \<le> snd y"
    unfolding first_min_in_def by auto
  have all: "\<forall>y\<in>set (Counter ks). snd kc \<le> snd y"
    using pre post unfolding d by (auto intro: less_imp_le)
  show ?thesis
    unfolding is_rarest_def
    using first_in_Counter [OF d] pre all unfolding set_Counter by auto
qed

lemma Counter_Nil_iff: "Counter ks = [] \<longleftrightarrow> ks = []"
  by (cases ks) (simp_all add: Counter_eq)

lemma foldl_counter_update:
  "foldl (\<lambda>cnt r. counter_update cnt (g r)) (Counter xs) rs = Counter (xs @ concat (map g rs))"
  by (induction rs arbitrary: xs) (simp_all add: counter_update_Counter)

lemma word_counter_of_eq:
  "word_counter_of nm = Counter (concat (map (\<lambda>r. tokenize (message r)) nm))"
  using foldl_counter_update [of "\<lambda>r. tokenize (message r)" "[]" nm]
  by (simp add: word_counter_of_def Counter_def counter_update_def)

lemma emoji_counter_of_eq:
  "emoji_counter_of nm = Counter (concat (map (\<lambda>r. EMOJI_RE_findall (message r)) nm))"
proof -
  have step: "(\<lambda>cnt r. let emojis = EMOJI_RE_findall (message r)
                   in if emojis \<noteq> [] then counter_update cnt emojis else cnt) =
        (\<lambda>cnt r. counter_update cnt (EMOJI_RE_findall (message r)))"
    by (intro ext) (simp add: Let_def counter_update_def)
  have "emoji_counter_of nm =
      foldl (\<lambda>cnt r. counter_update cnt (EMOJI_RE_findall (message r))) (Counter []) nm"
    unfolding emoji_counter_of_def step by (simp add: Counter_def counter_update_def)
  also have "\<dots> = Counter ([] @ concat (map (\<lambda>r. EMOJI_RE_findall (message r)) nm))"
    by (rule foldl_counter_update)
  finally show ?thesis by simp
qed

lemma most_of_Counter:
  "most_of (Counter ks) = None \<longleftrightarrow> ks = []"
  "most_of (Counter ks) = Some kc \<Longrightarrow> is_mode ks kc"
proof -
  show "most_of (Counter ks) = None \<longleftrightarrow> ks = []"
    using most_common_1_Inr [of "Counter ks"]
    by (auto simp: most_of_def Counter_Nil_iff)
  assume "most_of (Counter ks) = Some kc"
  then have "first_item (most_common 1 (Counter ks)) = Inr kc"
    by (auto simp: most_of_def split: if_splits sum.splits)
  then show "is_mode ks kc"
    by (intro first_max_in_Counter most_common_1_first_max)
qed

lemma most_common_spec:
  "\<exists>full. most_common n cnt = take n full \<and> mset full = mset cnt \<and>
      sorted_wrt (\<lambda>a b. snd b \<le> snd a) full \<and>
      (\<forall>c. filter (\<lambda>kv. snd kv = c) full = filter (\<lambda>kv. snd kv = c) cnt)"
proof -
  let ?f = "\<lambda>kv::'a \<times> nat. - int (snd kv)"
  let ?full = "sort_key ?f cnt"
  have "sorted (map ?f ?full)" by simp
  then have "sorted_wrt (\<lambda>a b. snd b \<le> snd a) ?full"
    by (simp add: sorted_map)
  moreover have "filter (\<lambda>kv. snd kv = c) ?full = filter (\<lambda>kv. snd kv = c) cnt" for c
    using sort_key_stable [of ?f "- int c" cnt] by simp
  ultimately show ?thesis
    unfolding most_common_def by (intro exI [of _ ?full]) simp
qed

lemma weekday_less: "weekday ts < 7"
  by (simp add: weekday_def)

lemma month_label_Inr:
  "1 \<le> y \<Longrightarrow> y \<le> 9999 \<Longrightarrow> 1 \<le> m \<Longrightarrow> m \<le> 12 \<Longrightarrow> \<exists>lbl. month_label y m = Inr lbl"
  by (simp add: month_label_def)

lemma is_mode_mem: "is_mode ks kc \<Longrightarrow> fst kc \<in> set ks"
  by (simp add: is_mode_def)

section \<open>The shape of \<open>compute_stats\<close>\<close>

lemma classify_filter:
  "classify se um rs =
     (se @ filter (\<lambda>r. ADMIN_ACTION_RE_search (message r)) rs,
      um @ filter (\<lambda>r. \<not> ADMIN_ACTION_RE_search (message r)) rs)"
  by (induction rs arbitrary: se um) auto

lemma system_events_of_filter:
  "system_events_of rs = filter (\<lambda>r. ADMIN_ACTION_RE_search (message r)) (year_filter rs)"
  by (simp add: system_events_of_def classify_filter)

lemma user_msgs_of_filter:
  "user_msgs_of rs = filter (\<lambda>r. \<not> ADMIN_ACTION_RE_search (message r)) (year_filter rs)"
  by (simp add: user_msgs_of_def classify_filter)

lemma classify_of: "classify [] [] (year_filter rs) = (system_events_of rs, user_msgs_of rs)"
  by (simp add: system_events_of_def user_msgs_of_def)

lemma length_classes:
  "length (year_filter rs) = length (user_msgs_of rs) + length (system_events_of rs)"
  unfolding user_msgs_of_filter system_events_of_filter
  using sum_length_filter_compl [of "\<lambda>r. ADMIN_ACTION_RE_search (message r)" "year_filter rs"]
  by simp

lemma compute_stats_empty:
  assumes "user_msgs_of rs = []"
  shows "compute_stats v rs =
    (case v of
       Pydantic_2 \<Rightarrow> Inl (ValidationError [''most_used_emoji''])
     | Pydantic_1 \<Rightarrow> Inr (empty_result (length (year_filter rs)) (length (system_events_of rs))))"
  using assms
  by (cases v)
     (simp_all add: compute_stats_def classify_of WrappedResponse_def missing_fields_def
        required_def required_optional_def no_kwargs_def optional_value_def empty_result_def)

lemma WrappedResponse_all:
  "WrappedResponse v
     \<lparr>kw_total_records = Some a, kw_total_user_messages = Some b,
      kw_total_system_events = Some c, kw_top_talkers = Some d, kw_quietest_sender = Some e,
      kw_busiest_hour = Some f, kw_busiest_day_of_week = Some g, kw_peak_month = Some h,
      kw_night_owl = Some i, kw_longest_message = Some j, kw_most_used_word = Some k,
      kw_most_used_emoji = Some l\<rparr> =
   Inr \<lparr>total_records = a, total_user_messages = b, total_system_events = c,
        top_talkers = d, quietest_sender = e, busiest_hour = f, busiest_day_of_week = g,
        peak_month = h, night_owl = i, longest_message = j, most_used_word = k,
        most_used_emoji = l\<rparr>"
  by (simp add: WrappedResponse_def missing_fields_def required_def required_optional_def
      optional_value_def)

lemma compute_stats_nonempty:
  assumes "user_msgs_of rs = um" and "um \<noteq> []"
    and "min_by snd (Counter (map sender um)) = Inr q"
    and "first_item (most_common 1 (Counter (map (\<lambda>r. hour (timestamp r)) um))) = Inr (h, hc)"
    and "first_item (most_common 1 (Counter (map (\<lambda>r. weekday (timestamp r)) um))) = Inr (d, dc)"
    and "first_item (most_common 1
           (Counter (map (\<lambda>r. (year (timestamp r), month (timestamp r))) um))) = Inr ((y, m), mc)"
    and "month_label y m = Inr lbl"
    and "d < 7"
  shows "compute_stats v rs = Inr
     \<lparr>total_records = length (year_filter rs),
      total_user_messages = length um,
      total_system_events = length (system_events_of rs),
      top_talkers = most_common 10 (Counter (map sender um)),
      quietest_sender = Some q,
      busiest_hour = (Some h, hc),
      busiest_day_of_week = (Some (str (DOW_NAMES ! d)), dc),
      peak_month = \<lparr>pm_year = Some y, pm_month = Some m, pm_label = Some lbl, pm_count = mc\<rparr>,
      night_owl = (length (filter (\<lambda>r. is_night (timestamp r)) um),
                   Round2_percent (length (filter (\<lambda>r. is_night (timestamp r)) um)) (length um)),
      longest_message = longest_of (non_media um),
      most_used_word = most_of (word_counter_of (non_media um)),
      most_used_emoji = most_of (emoji_counter_of (non_media um))\<rparr>"
proof -
  have len: "length DOW_NAMES = 7" by (simp add: DOW_NAMES_def)
  obtain qs qc where q: "q = (qs, qc)" by (cases q)
  show ?thesis
    using assms unfolding q
    by (simp add: compute_stats_def classify_of Let_def len no_kwargs_def WrappedResponse_all)
qed

lemma compute_stats_totals:
  assumes "compute_stats v rs = Inr res"
  shows "total_records res = length (year_filter rs)"
    and "total_user_messages res = length (user_msgs_of rs)"
    and "total_system_events res = length (system_events_of rs)"
proof -
  have *: "WrappedResponse v kw = Inr res \<Longrightarrow>
     total_records res = the (kw_total_records kw) \<and>
     total_user_messages res = the (kw_total_user_messages kw) \<and>
     total_system_events res = the (kw_total_system_events kw)" for kw
    by (auto simp: WrappedResponse_def split: if_splits)
  from assms have "total_records res = length (year_filter rs) \<and>
    total_user_messages res = length (user_msgs_of rs) \<and>
    total_system_events res = length (system_events_of rs)"
    by (auto simp: compute_stats_def classify_of Let_def no_kwargs_def
        split: if_splits sum.splits prod.splits dest!: *)
  then show "total_records res = length (year_filter rs)"
    and "total_user_messages res = length (user_msgs_of rs)"
    and "total_system_events res = length (system_events_of rs)" by simp_all
qed

lemma count_list_filter:
  "count_list (filter P xs) r = (if P r then count_list xs r else 0)"
  by (induction xs) auto

section \<open>The sample chat, evaluated\<close>

lemma year_example: "year_filter [alice_record, bob_record] = [alice_record, bob_record]"
  by (simp add: year_filter_def alice_record_def bob_record_def)

lemma user_msgs_example: "user_msgs_of [alice_record, bob_record] = [alice_record]"
  by (simp add: user_msgs_of_filter year_example admin_alice admin_bob)

lemma system_events_example: "system_events_of [alice_record, bob_record] = [bob_record]"
  by (simp add: system_events_of_filter year_example admin_alice admin_bob)

lemma Counter_single: "Counter [k] = [(k, 1)]"
  by (simp add: Counter_def counter_update_def)

lemma most_common_single:
  "most_common (numeral n) [kv] = [kv]" "most_common (Suc m) [kv] = [kv]"
  by (simp_all add: most_common_def)

lemma weekday_alice: "weekday (timestamp alice_record) = 6"
  by (simp add: alice_record_def eval_defs)

lemma label_example: "month_label 2025 (Suc 0) = Inr (str ''January 2025'')"
  by (simp add: eval_defs zpad_4)

lemma iso_alice: "isoformat (timestamp alice_record) = str ''2025-01-05T22:15:03''"
  by (simp add: alice_record_def eval_defs zpad_4 zpad_2)

lemma tokens_alice: "tokenize (message alice_record) = [str ''hello'', str ''world'']"
  by (simp add: alice_record_def eval_defs)

lemma emoji_alice: "EMOJI_RE_findall (message alice_record) = []"
  by (simp add: alice_record_def eval_defs stat_defs)

lemma longest_alice:
  "longest_of [alice_record] =
     Some \<lparr>lm_sender = str ''Alice'', lm_timestamp = str ''2025-01-05T22:15:03'',
           lm_length_chars = 11, lm_preview = str ''hello world''\<rparr>"
  by (simp add: longest_of_def max_by_def iso_alice) (simp add: alice_record_def eval_defs)

lemma words_alice: "most_of (word_counter_of [alice_record]) = Some (str ''hello'', 1)"
  by (simp add: word_counter_of_eq tokens_alice Counter_def counter_update_def most_of_def
      most_common_def first_item_def str_def)

lemma emojis_alice: "most_of (emoji_counter_of [alice_record]) = None"
  by (simp add: emoji_counter_of_eq emoji_alice Counter_def counter_update_def most_of_def)

lemma compute_example: "compute_stats v [alice_record, bob_record] = Inr example_result"
proof -
  have fields: "sender alice_record = str ''Alice''" "hour (timestamp alice_record) = 22"
    "year (timestamp alice_record) = 2025" "month (timestamp alice_record) = 1"
    by (simp_all add: alice_record_def)
  have night: "is_night (timestamp alice_record)" by (simp add: is_night_def fields)
  have dow: "str (DOW_NAMES ! 6) = str ''Sun''" by (simp add: DOW_NAMES_def)
  have "compute_stats v [alice_record, bob_record] = Inr
     \<lparr>total_records = length (year_filter [alice_record, bob_record]),
      total_user_messages = length [alice_record],
      total_system_events = length (system_events_of [alice_record, bob_record]),
      top_talkers = most_common 10 (Counter (map sender [alice_record])),
      quietest_sender = Some (str ''Alice'', 1),
      busiest_hour = (Some 22, 1),
      busiest_day_of_week = (Some (str (DOW_NAMES ! 6)), 1),
      peak_month = \<lparr>pm_year = Some 2025, pm_month = Some 1,
                     pm_label = Some (str ''January 2025''), pm_count = 1\<rparr>,
      night_owl = (length (filter (\<lambda>r. is_night (timestamp r)) [alice_record]),
                   Round2_percent (length (filter (\<lambda>r. is_night (timestamp r)) [alice_record]))
                     (length [alice_record])),
      longest_message = longest_of (non_media [alice_record]),
      most_used_word = most_of (word_counter_of (non_media [alice_record])),
      most_used_emoji = most_of (emoji_counter_of (non_media [alice_record]))\<rparr>"
    by (rule compute_stats_nonempty [OF user_msgs_example])
       (simp_all add: Counter_single most_common_single first_item_def min_by_def fields
          weekday_alice label_example)
  also have "\<dots> = Inr example_result"
    by (simp add: year_example system_events_example Counter_single most_common_single
        night dow non_media_def media_alice longest_alice words_alice emojis_alice
        example_result_def fields)
  finally show ?thesis .
qed

section \<open>Media placeholders and the administrative pattern\<close>

lemma re_search_append: "m s \<Longrightarrow> re_search m (u @ s)"
proof (induction u)
  case Nil
  then show ?case by (cases s) auto
next
  case (Cons c u)
  then show ?case by simp
qed

lemma omitted_is_admin_action: "ADMIN_ACTION_RE_search (u @ str ''omitted'' @ w)"
  unfolding ADMIN_ACTION_RE_search_def
  by (rule re_search_append) (simp add: admin_action_at_def ci_literal_def ci_char_def str_def)


section \<open>What \<open>compute_stats\<close> returns\<close>

lemma first_item_most_common_key:
  assumes "first_item (most_common 1 (Counter ks)) = Inr kv"
  shows "is_mode ks kv"
  by (intro first_max_in_Counter most_common_1_first_max assms)

lemma compute_stats_Inr:
  assumes res: "compute_stats v rs = Inr res" and um: "user_msgs_of rs = um" and ne: "um \<noteq> []"
  shows "\<exists>q h d ym lbl.
    min_by snd (Counter (map sender um)) = Inr q \<and>
    first_item (most_common 1 (Counter (map (\<lambda>r. hour (timestamp r)) um))) = Inr h \<and>
    first_item (most_common 1 (Counter (map (\<lambda>r. weekday (timestamp r)) um))) = Inr d \<and>
    first_item (most_common 1
      (Counter (map (\<lambda>r. (year (timestamp r), month (timestamp r))) um))) = Inr ym \<and>
    month_label (fst (fst ym)) (snd (fst ym)) = Inr lbl \<and>
    res =
     \<lparr>total_records = length (year_filter rs),
      total_user_messages = length um,
      total_system_events = length (system_events_of rs),
      top_talkers = most_common 10 (Counter (map sender um)),
      quietest_sender = Some q,
      busiest_hour = (Some (fst h), snd h),
      busiest_day_of_week = (Some (str (DOW_NAMES ! fst d)), snd d),
      peak_month = \<lparr>pm_year = Some (fst (fst ym)), pm_month = Some (snd (fst ym)),
                     pm_label = Some lbl, pm_count = snd ym\<rparr>,
      night_owl = (length (filter (\<lambda>r. is_night (timestamp r)) um),
                   Round2_percent (length (filter (\<lambda>r. is_night (timestamp r)) um)) (length um)),
      longest_message = longest_of (non_media um),
      most_used_word = most_of (word_counter_of (non_media um)),
      most_used_emoji = most_of (emoji_counter_of (non_media um))\<rparr>"
proof -
  let ?q = "min_by snd (Counter (map sender um))"
  let ?h = "first_item (most_common 1 (Counter (map (\<lambda>r. hour (timestamp r)) um)))"
  let ?d = "first_item (most_common 1 (Counter (map (\<lambda>r. weekday (timestamp r)) um)))"
  let ?m = "first_item (most_common 1
      (Counter (map (\<lambda>r. (year (timestamp r), month (timestamp r))) um)))"
  have unf: "compute_stats v rs =
      (case ?q of Inl e \<Rightarrow> Inl e | Inr q \<Rightarrow>
       (case ?h of Inl e \<Rightarrow> Inl e | Inr h \<Rightarrow>
       (case ?d of Inl e \<Rightarrow> Inl e | Inr d \<Rightarrow>
       (case ?m of Inl e \<Rightarrow> Inl e | Inr ym \<Rightarrow>
       (case month_label (fst (fst ym)) (snd (fst ym)) of Inl e \<Rightarrow> Inl e | Inr lbl \<Rightarrow>
       compute_stats v rs)))))"
    using um ne
    by (auto simp: compute_stats_def classify_of Let_def split: sum.splits prod.splits)
  from res unf obtain q where q: "?q = Inr q" by (cases ?q) auto
  from res unf q obtain h where h: "?h = Inr h" by (cases ?h) auto
  from res unf q h obtain d where d: "?d = Inr d" by (cases ?d) auto
  from res unf q h d obtain ym where ym: "?m = Inr ym" by (cases ?m) auto
  from res unf q h d ym obtain lbl where lbl: "month_label (fst (fst ym)) (snd (fst ym)) = Inr lbl"
    by (cases "month_label (fst (fst ym)) (snd (fst ym))") auto
  have "fst d \<in> set (map (\<lambda>r. weekday (timestamp r)) um)"
    using first_item_most_common_key [OF d] by (simp add: is_mode_def)
  then have d7: "fst d < 7" by (auto simp: weekday_less)
  have h': "?h = Inr (fst h, snd h)" and d': "?d = Inr (fst d, snd d)"
    and ym': "?m = Inr ((fst (fst ym), snd (fst ym)), snd ym)"
    using h d ym by simp_all
  from compute_stats_nonempty [OF um ne q h' d' ym' lbl d7, of v] res q h d ym lbl
  show ?thesis by auto
qed

lemma compute_stats_returns:
  assumes valid: "\<forall>r\<in>set rs. valid_datetime (timestamp r)" and ne: "user_msgs_of rs \<noteq> []"
  shows "\<exists>res. compute_stats v rs = Inr res"
proof -
  define um where "um = user_msgs_of rs"
  have um: "user_msgs_of rs = um" and ne': "um \<noteq> []" using ne by (simp_all add: um_def)
  have sub: "r \<in> set um \<Longrightarrow> r \<in> set rs \<and> year (timestamp r) = 2025" for r
    by (auto simp: um_def user_msgs_of_filter year_filter_def)
  obtain q where q: "min_by snd (Counter (map sender um)) = Inr q"
    using min_by_Inr [of "Counter (map sender um)" snd] ne' by (auto simp: Counter_Nil_iff)
  obtain h where h: "first_item (most_common 1 (Counter (map (\<lambda>r. hour (timestamp r)) um))) = Inr h"
    using most_common_1_Inr [of "Counter (map (\<lambda>r. hour (timestamp r)) um)"] ne'
    by (auto simp: Counter_Nil_iff)
  obtain d where d: "first_item (most_common 1 (Counter (map (\<lambda>r. weekday (timestamp r)) um))) = Inr d"
    using most_common_1_Inr [of "Counter (map (\<lambda>r. weekday (timestamp r)) um)"] ne'
    by (auto simp: Counter_Nil_iff)
  obtain ym where ym: "first_item (most_common 1
      (Counter (map (\<lambda>r. (year (timestamp r), month (timestamp r))) um))) = Inr ym"
    using most_common_1_Inr
      [of "Counter (map (\<lambda>r. (year (timestamp r), month (timestamp r))) um)"] ne'
    by (auto simp: Counter_Nil_iff)
  have "fst d \<in> set (map (\<lambda>r. weekday (timestamp r)) um)"
    using first_item_most_common_key [OF d] by (simp add: is_mode_def)
  then have d7: "fst d < 7" by (auto simp: weekday_less)
  have "fst ym \<in> set (map (\<lambda>r. (year (timestamp r), month (timestamp r))) um)"
    using first_item_most_common_key [OF ym] by (simp add: is_mode_def)
  then obtain r where r: "r \<in> set um" and k: "fst ym = (year (timestamp r), month (timestamp r))"
    by auto
  from sub [OF r] valid have "valid_datetime (timestamp r)" by blast
  then obtain lbl where lbl: "month_label (fst (fst ym)) (snd (fst ym)) = Inr lbl"
    using month_label_Inr [of "fst (fst ym)" "snd (fst ym)"] k
    by (auto simp: valid_datetime_def)
  have h': "first_item (most_common 1 (Counter (map (\<lambda>r. hour (timestamp r)) um))) =
      Inr (fst h, snd h)"
    and d': "first_item (most_common 1 (Counter (map (\<lambda>r. weekday (timestamp r)) um))) =
      Inr (fst d, snd d)"
    and ym': "first_item (most_common 1
      (Counter (map (\<lambda>r. (year (timestamp r), month (timestamp r))) um))) =
      Inr ((fst (fst ym), snd (fst ym)), snd ym)"
    using h d ym by simp_all
  from compute_stats_nonempty [OF um ne' q h' d' ym' lbl d7, of v] show ?thesis by blast
qed

lemma wrapped_example:
  "wrapped v (str ''chat.txt'') (length example_text) (Some example_text) = Inr example_result"
proof -
  have "endswith (lower (str ''chat.txt'')) (str ''.txt'')"
    by (simp add: endswith_def eval_defs)
  moreover have "\<not> length example_text > 5 * 1024 * 1024"
    by (simp add: example_text_def str_def)
  ultimately show ?thesis by (simp add: wrapped_def parse_example compute_example)
qed

lemma year_three:
  "year_filter [alice_record, bob_record, lrm_record] = [alice_record, bob_record, lrm_record]"
  by (simp add: year_filter_def alice_record_def bob_record_def lrm_record_def)

lemma user_msgs_three:
  "user_msgs_of [alice_record, bob_record, lrm_record] = [alice_record, lrm_record]"
  by (simp add: user_msgs_of_filter year_three admin_alice admin_bob admin_lrm)

section \<open>Lines without the header shape\<close>

lemma parse_line_no_record:
  "HEADER_RE_match (rstrip_newline l) = None \<Longrightarrow> parse_line (records, None) l = Inr (records, None)"
  by (simp add: parse_line_def)

lemma parse_lines_no_record:
  "\<forall>l\<in>set ls. HEADER_RE_match (rstrip_newline l) = None \<Longrightarrow>
   parse_lines (records, None) (ls @ rest) = parse_lines (records, None) rest"
  by (induction ls) (simp_all add: parse_line_no_record)

lemma all_dropWhile: "(\<forall>c\<in>set (dropWhile P s). P c) \<longleftrightarrow> (\<forall>c\<in>set s. P c)"
  by (induction s) auto

lemma last_dropWhile: "dropWhile P xs \<noteq> [] \<Longrightarrow> last (dropWhile P xs) = last xs"
  by (induction xs) auto

lemma strip_Nil_iff: "strip s = [] \<longleftrightarrow> (\<forall>c\<in>set s. is_space c)"
  by (simp add: strip_def rstrip_def lstrip_def dropWhile_eq_Nil_conv all_dropWhile)

lemma strip_ends:
  assumes "strip s \<noteq> []"
  shows "\<not> is_space (hd (strip s))" and "\<not> is_space (last (strip s))"
proof -
  let ?l = "dropWhile is_space s"
  have ne: "dropWhile is_space (rev ?l) \<noteq> []"
    using assms by (simp add: strip_def rstrip_def lstrip_def)
  then have "\<not> is_space (hd (dropWhile is_space (rev ?l)))" by (rule hd_dropWhile)
  then show "\<not> is_space (last (strip s))"
    using ne by (simp add: strip_def rstrip_def lstrip_def last_rev)
  have lne: "?l \<noteq> []"
  proof
    assume a: "?l = []"
    have "dropWhile is_space (rev ?l) = dropWhile is_space (rev [])" by (simp only: a)
    with ne show False by simp
  qed
  then have h: "\<not> is_space (hd ?l)" by (rule hd_dropWhile)
  have "hd (strip s) = last (dropWhile is_space (rev ?l))"
    using ne by (simp add: strip_def rstrip_def lstrip_def hd_rev)
  also have "\<dots> = last (rev ?l)" using ne by (rule last_dropWhile)
  also have "\<dots> = hd ?l" using lne by (simp add: last_rev)
  finally show "\<not> is_space (hd (strip s))" using h by simp
qed

lemma strip_decomp:
  "\<exists>a b. s = a @ strip s @ b \<and> (\<forall>c\<in>set a. is_space c) \<and> (\<forall>c\<in>set b. is_space c)"
proof -
  let ?l = "dropWhile is_space s"
  have "rev (takeWhile is_space (rev ?l) @ dropWhile is_space (rev ?l)) = rev (rev ?l)"
    by (simp only: takeWhile_dropWhile_id)
  then have "rev (dropWhile is_space (rev ?l)) @ rev (takeWhile is_space (rev ?l)) = ?l"
    by (simp only: rev_append rev_rev_ident)
  then have l: "?l = strip s @ rev (takeWhile is_space (rev ?l))"
    by (simp only: strip_def rstrip_def lstrip_def)
  have "s = takeWhile is_space s @ ?l" by simp
  with l have "s = takeWhile is_space s @ strip s @ rev (takeWhile is_space (rev ?l))" by simp
  moreover have "\<forall>c\<in>set (takeWhile is_space s). is_space c" by (auto dest: set_takeWhileD)
  moreover have "\<forall>c\<in>set (rev (takeWhile is_space (rev ?l))). is_space c"
    by (auto dest: set_takeWhileD)
  ultimately show ?thesis by blast
qed

section \<open>Maximal runs and \<open>findall\<close>\<close>

lemma maximal_runs_skip:
  assumes "maximal_runs P s ts" and "\<not> P c"
  shows "maximal_runs P (c # s) ts"
  using assms(1)
proof (cases rule: maximal_runs.cases)
  case no_run
  then have "\<forall>d\<in>set (c # s). \<not> P d" using assms(2) by simp
  then have "maximal_runs P (c # s) []" by (rule maximal_runs.no_run)
  then show ?thesis using no_run by simp
next
  case (run gap t rest ts')
  have "\<forall>d\<in>set (c # gap). \<not> P d" using run(3) assms(2) by simp
  then have "maximal_runs P ((c # gap) @ t @ rest) (t # ts')"
    using run(4-7) by (rule maximal_runs.run)
  then show ?thesis using run(1,2) by simp
qed

lemma findall_class_runs: "maximal_runs P s (findall_class P s)"
proof (induction P s rule: findall_class.induct)
  case (1 P)
  have "maximal_runs P [] []" by (rule maximal_runs.no_run) simp
  then show ?case by simp
next
  case (2 P c cs)
  show ?case
  proof (cases "P c")
    case True
    have "maximal_runs P ([] @ (c # takeWhile P cs) @ dropWhile P cs)
        ((c # takeWhile P cs) # findall_class P (dropWhile P cs))"
    proof (rule maximal_runs.run)
      show "\<forall>d\<in>set []. \<not> P d" by simp
      show "c # takeWhile P cs \<noteq> []" by simp
      show "\<forall>d\<in>set (c # takeWhile P cs). P d" using True by (auto dest: set_takeWhileD)
      show "dropWhile P cs = [] \<or> \<not> P (hd (dropWhile P cs))"
        using hd_dropWhile [of P cs] by blast
      show "maximal_runs P (dropWhile P cs) (findall_class P (dropWhile P cs))"
        using 2(1) True by simp
    qed
    then show ?thesis using True by simp
  next
    case False
    then have "maximal_runs P cs (findall_class P cs)" using 2(2) by simp
    then have "maximal_runs P (c # cs) (findall_class P cs)"
      using False by (rule maximal_runs_skip)
    then show ?thesis using False by simp
  qed
qed

lemma findall_class_none: "\<forall>c\<in>set s. \<not> P c \<Longrightarrow> findall_class P s = []"
  by (induction s) simp_all

lemma findall_class_gap: "\<forall>c\<in>set gap. \<not> P c \<Longrightarrow> findall_class P (gap @ s) = findall_class P s"
  by (induction gap) simp_all

lemma takeWhile_run:
  "\<forall>c\<in>set t. P c \<Longrightarrow> rest = [] \<or> \<not> P (hd rest) \<Longrightarrow> takeWhile P (t @ rest) = t"
proof (induction t)
  case Nil
  then show ?case by (cases rest) simp_all
next
  case (Cons a t)
  then show ?case by simp
qed

lemma dropWhile_run:
  "\<forall>c\<in>set t. P c \<Longrightarrow> rest = [] \<or> \<not> P (hd rest) \<Longrightarrow> dropWhile P (t @ rest) = rest"
proof (induction t)
  case Nil
  then show ?case by (cases rest) simp_all
next
  case (Cons a t)
  then show ?case by simp
qed

lemma findall_class_run:
  assumes "t \<noteq> []" "\<forall>c\<in>set t. P c" "rest = [] \<or> \<not> P (hd rest)"
  shows "findall_class P (t @ rest) = t # findall_class P rest"
proof -
  from assms(1) obtain c t' where t: "t = c # t'" by (cases t) auto
  then have c: "P c" and t': "\<forall>c\<in>set t'. P c" using assms(2) by auto
  show ?thesis
    using c takeWhile_run [OF t' assms(3)] dropWhile_run [OF t' assms(3)] by (simp add: t)
qed

lemma maximal_runs_unique: "maximal_runs P s ts \<Longrightarrow> ts = findall_class P s"
proof (induction rule: maximal_runs.induct)
  case (no_run s)
  then show ?case by (simp add: findall_class_none)
next
  case (run gap t rest ts)
  then show ?case by (simp add: findall_class_gap findall_class_run)
qed

lemma lower_word: "\<forall>c\<in>set t. is_word_char c \<Longrightarrow> lower t = t"
  by (induction t) (auto simp: lower_def lower_cp_def is_word_char_def)

lemma maximal_runs_chars:
  "maximal_runs P s ts \<Longrightarrow> t \<in> set ts \<Longrightarrow> t \<noteq> [] \<and> (\<forall>c\<in>set t. P c)"
  by (induction rule: maximal_runs.induct) auto

lemma lower_no_capitals: "c \<in> set (lower s) \<Longrightarrow> \<not> (65 \<le> c \<and> c \<le> 90)"
  by (induction s) (auto simp: lower_def lower_cp_def split: if_splits)

section \<open>The longest message\<close>

lemma length_zpad: "length (zpad k n) = k"
  by (induction k n rule: zpad.induct) simp_all

lemma length_isoformat: "length (isoformat ts) = 19"
  by (simp add: isoformat_def length_zpad str_def)

lemma non_media_user_msgs:
  "non_media (user_msgs_of rs) =
     filter (\<lambda>r. year (timestamp r) = 2025 \<and> \<not> ADMIN_ACTION_RE_search (message r) \<and>
                 \<not> is_media_message (message r)) rs"
  by (simp add: non_media_def user_msgs_of_filter year_filter_def conj_commute conj_left_commute)

lemma longest_of_first_max:
  assumes "nm \<noteq> []"
  shows "\<exists>lr. first_max_in (\<lambda>r. length (message r)) nm lr \<and>
    longest_of nm = Some \<lparr>lm_sender = sender lr, lm_timestamp = isoformat (timestamp lr),
      lm_length_chars = length (message lr),
      lm_preview = take 200 (replace_char 10 32 (message lr))\<rparr>"
proof -
  from max_by_Inr [OF assms] obtain lr where lr: "max_by (\<lambda>r. length (message r)) nm = Inr lr"
    by blast
  from max_by_first_max [OF lr] lr show ?thesis by (auto simp: longest_of_def)
qed

section \<open>Tables of two keys\<close>

lemma is_mode_pair:
  assumes "is_mode [a, b] kc" and "a \<noteq> b"
  shows "kc = (a, 1)"
proof -
  obtain k c where kc: "kc = (k, c)" by (cases kc)
  from assms(1) have m: "k \<in> set [a, b] \<and> c = count_list [a, b] k \<and>
      (\<forall>x\<in>set [a, b]. count_list [a, b] x \<le> c) \<and>
      (\<forall>x\<in>set (takeWhile (\<lambda>x. x \<noteq> k) [a, b]). count_list [a, b] x < c)"
    unfolding is_mode_def kc fst_conv snd_conv .
  then have k: "k = a \<or> k = b" by simp
  from m have c: "c = count_list [a, b] k"
    and lt: "\<forall>x\<in>set (takeWhile (\<lambda>x. x \<noteq> k) [a, b]). count_list [a, b] x < c"
    by blast+
  have "k = a"
  proof (rule ccontr)
    assume "k \<noteq> a"
    with k have kb: "k = b" by simp
    with assms(2) have "a \<in> set (takeWhile (\<lambda>x. x \<noteq> k) [a, b])" by simp
    with lt have "count_list [a, b] a < c" by blast
    then show False using c kb assms(2) by simp
  qed
  then show ?thesis using c assms(2) kc by simp
qed

lemma is_rarest_pair:
  assumes "is_rarest [a, b] kc" and "a \<noteq> b"
  shows "kc = (a, 1)"
proof -
  obtain k c where kc: "kc = (k, c)" by (cases kc)
  from assms(1) have m: "k \<in> set [a, b] \<and> c = count_list [a, b] k \<and>
      (\<forall>x\<in>set [a, b]. c \<le> count_list [a, b] x) \<and>
      (\<forall>x\<in>set (takeWhile (\<lambda>x. x \<noteq> k) [a, b]). c < count_list [a, b] x)"
    unfolding is_rarest_def kc fst_conv snd_conv .
  then have k: "k = a \<or> k = b" by simp
  from m have c: "c = count_list [a, b] k"
    and lt: "\<forall>x\<in>set (takeWhile (\<lambda>x. x \<noteq> k) [a, b]). c < count_list [a, b] x"
    by blast+
  have "k = a"
  proof (rule ccontr)
    assume "k \<noteq> a"
    with k have kb: "k = b" by simp
    with assms(2) have "a \<in> set (takeWhile (\<lambda>x. x \<noteq> k) [a, b])" by simp
    with lt have "c < count_list [a, b] a" by blast
    then show False using c kb assms(2) by simp
  qed
  then show ?thesis using c assms(2) kc by simp
qed

section \<open>Properties of the specification\<close>

text \<open>
  C4: after the year filter, the number of records is the number of user messages plus the
  number of system events; every record of the filtered list is in exactly one of the two
  classes, and a result of \<open>compute_stats\<close> carries these three numbers.
\<close>

theorem totals_add_up:
  "length (year_filter rs) = length (user_msgs_of rs) + length (system_events_of rs) \<and>
   (\<forall>r. count_list (year_filter rs) r =
        count_list (user_msgs_of rs) r + count_list (system_events_of rs) r) \<and>
   set (user_msgs_of rs) \<inter> set (system_events_of rs) = {} \<and>
   (\<forall>res. compute_stats v rs = Inr res \<longrightarrow>
      total_records res = length (year_filter rs) \<and>
      total_user_messages res = length (user_msgs_of rs) \<and>
      total_system_events res = length (system_events_of rs) \<and>
      total_records res = total_user_messages res + total_system_events res)"
proof (intro conjI allI impI)
  show "length (year_filter rs) = length (user_msgs_of rs) + length (system_events_of rs)"
    by (rule length_classes)
  show "count_list (year_filter rs) r =
      count_list (user_msgs_of rs) r + count_list (system_events_of rs) r" for r
    by (simp add: user_msgs_of_filter system_events_of_filter count_list_filter)
  show "set (user_msgs_of rs) \<inter> set (system_events_of rs) = {}"
    by (auto simp: user_msgs_of_filter system_events_of_filter)
  fix res assume res: "compute_stats v rs = Inr res"
  show "total_records res = length (year_filter rs)"
    and "total_user_messages res = length (user_msgs_of rs)"
    and "total_system_events res = length (system_events_of rs)"
    by (rule compute_stats_totals [OF res])+
  then show "total_records res = total_user_messages res + total_system_events res"
    by (simp add: length_classes)
qed

theorem totals_add_up_witness:
  "compute_stats Pydantic_2 [alice_record, bob_record] = Inr example_result \<and>
   total_records example_result = length (year_filter [alice_record, bob_record]) \<and>
   total_records example_result =
     total_user_messages example_result + total_system_events example_result \<and>
   count_list (year_filter [alice_record, bob_record]) bob_record =
     count_list (user_msgs_of [alice_record, bob_record]) bob_record +
     count_list (system_events_of [alice_record, bob_record]) bob_record"
  using totals_add_up [of "[alice_record, bob_record]" Pydantic_2]
    compute_example [of Pydantic_2]
  by blast

text \<open>
  C2 at an export that holds only a message of 2024: the year filter leaves no record, so
  the user-message subset is empty, and under pydantic 2 the call of \<open>WrappedResponse\<close>
  without \<open>most_used_emoji\<close> raises; \<open>compute_stats\<close> returns no result.
\<close>

theorem empty_subset_raises:
  "wrapped Pydantic_2 (str ''chat.txt'') (length year_2024_text) (Some year_2024_text) =
     Inl (ValidationError [''most_used_emoji'']) \<and>
   compute_stats Pydantic_2 [] = Inl (ValidationError [''most_used_emoji''])"
proof -
  define r where "r = \<lparr>timestamp = \<lparr>year = 2024, month = 12, day = 31, hour = 23,
    minute = 59, second = 0\<rparr>, sender = str ''Alice'', message = str ''happy new year''\<rparr>"
  have parse: "parse_chat_text year_2024_text = Inr [r]"
    by (simp add: eval_defs year_2024_text_def r_def Let_def)
  have "user_msgs_of [r] = []" by (simp add: user_msgs_of_filter year_filter_def r_def)
  then have "compute_stats Pydantic_2 [r] = Inl (ValidationError [''most_used_emoji''])"
    by (simp add: compute_stats_empty)
  moreover have "user_msgs_of [] = []" by (simp add: user_msgs_of_filter year_filter_def)
  then have "compute_stats Pydantic_2 [] = Inl (ValidationError [''most_used_emoji''])"
    by (simp add: compute_stats_empty)
  moreover have "endswith (lower (str ''chat.txt'')) (str ''.txt'')"
    by (simp add: endswith_def eval_defs)
  moreover have "\<not> length year_2024_text > 5 * 1024 * 1024"
    by (simp add: year_2024_text_def str_def)
  ultimately show ?thesis by (simp add: wrapped_def parse)
qed



text \<open>
  C3, as the code has it: on the two-line export the pipeline finds two records, of which
  Bob's placeholder is a system event; so there is one user message, one system event and
  one night message, the longest message is Alice's, and the most used word is \<open>hello\<close>,
  met once.
\<close>

theorem example_result_of_pipeline:
  "wrapped v (str ''chat.txt'') (length example_text) (Some example_text) = Inr example_result \<and>
   total_records example_result = 2 \<and> total_user_messages example_result = 1 \<and>
   total_system_events example_result = 1 \<and> fst (night_owl example_result) = 1 \<and>
   map_option lm_sender (longest_message example_result) = Some (str ''Alice'') \<and>
   most_used_word example_result = Some (str ''hello'', 1)"
  by (simp add: wrapped_example) (simp add: example_result_def)

theorem example_result_counterexample:
  "wrapped Pydantic_2 (str ''chat.txt'') (length example_text) (Some example_text) =
     Inr example_result \<and>
   \<not> spec_example_holds example_result \<and>
   total_user_messages example_result \<noteq> 2 \<and> fst (night_owl example_result) \<noteq> 2"
  by (simp add: wrapped_example) (simp add: example_result_def spec_example_holds_def)

text \<open>
  C1, as the code has it. A media placeholder of the filtered list is never among the
  messages from which the longest message, the words and the emoji are taken. Whether it
  counts in the other statistics depends on the administrative-action pattern: a
  placeholder that the pattern does not match is a user message, and the sender, hour,
  weekday, month and night-owl statistics of a result are computed from all user messages,
  the placeholder among them; a placeholder that the pattern matches, as it matches every
  text that contains \<open>omitted\<close>, is a system event and not a user message.
\<close>

theorem media_placeholder_counting:
  assumes "r \<in> set (year_filter rs)" and "is_media_message (message r)"
  shows "r \<notin> set (non_media (user_msgs_of rs)) \<and>
    (\<not> ADMIN_ACTION_RE_search (message r) \<longrightarrow>
       r \<in> set (user_msgs_of rs) \<and>
       (\<forall>res. compute_stats v rs = Inr res \<longrightarrow>
          total_user_messages res = length (user_msgs_of rs) \<and>
          top_talkers res = most_common 10 (Counter (map sender (user_msgs_of rs))) \<and>
          min_by snd (Counter (map sender (user_msgs_of rs))) =
            Inr (the (quietest_sender res)) \<and>
          first_item (most_common 1
            (Counter (map (\<lambda>r. hour (timestamp r)) (user_msgs_of rs)))) =
            Inr (the (fst (busiest_hour res)), snd (busiest_hour res)) \<and>
          snd (busiest_day_of_week res) =
            snd (hd (most_common 1
              (Counter (map (\<lambda>r. weekday (timestamp r)) (user_msgs_of rs))))) \<and>
          first_item (most_common 1
            (Counter (map (\<lambda>r. (year (timestamp r), month (timestamp r))) (user_msgs_of rs)))) =
            Inr ((the (pm_year (peak_month res)), the (pm_month (peak_month res))),
                 pm_count (peak_month res)) \<and>
          fst (night_owl res) =
            length (filter (\<lambda>r. is_night (timestamp r)) (user_msgs_of rs)) \<and>
          longest_message res = longest_of (non_media (user_msgs_of rs)) \<and>
          most_used_word res = most_of (word_counter_of (non_media (user_msgs_of rs))) \<and>
          most_used_emoji res = most_of (emoji_counter_of (non_media (user_msgs_of rs))))) \<and>
    (ADMIN_ACTION_RE_search (message r) \<longrightarrow>
       r \<in> set (system_events_of rs) \<and> r \<notin> set (user_msgs_of rs)) \<and>
    (\<forall>u w. message r = u @ str ''omitted'' @ w \<longrightarrow> ADMIN_ACTION_RE_search (message r))"
proof (intro conjI impI allI)
  show "r \<notin> set (non_media (user_msgs_of rs))"
    using assms(2) by (simp add: non_media_def)
  show "ADMIN_ACTION_RE_search (message r)" if "message r = u @ str ''omitted'' @ w" for u w
    using that omitted_is_admin_action by simp
  {
    assume "ADMIN_ACTION_RE_search (message r)"
    then show "r \<in> set (system_events_of rs)" and "r \<notin> set (user_msgs_of rs)"
      using assms(1) by (simp_all add: system_events_of_filter user_msgs_of_filter)
  }
  assume na: "\<not> ADMIN_ACTION_RE_search (message r)"
  then show mem: "r \<in> set (user_msgs_of rs)"
    using assms(1) by (simp add: user_msgs_of_filter)
  then have ne: "user_msgs_of rs \<noteq> []" by auto
  fix res assume res: "compute_stats v rs = Inr res"
  from compute_stats_Inr [OF res refl ne] obtain q h d ym lbl where
    q: "min_by snd (Counter (map sender (user_msgs_of rs))) = Inr q"
    and h: "first_item (most_common 1
        (Counter (map (\<lambda>r. hour (timestamp r)) (user_msgs_of rs)))) = Inr h"
    and d: "first_item (most_common 1
        (Counter (map (\<lambda>r. weekday (timestamp r)) (user_msgs_of rs)))) = Inr d"
    and ym: "first_item (most_common 1
        (Counter (map (\<lambda>r. (year (timestamp r), month (timestamp r))) (user_msgs_of rs)))) = Inr ym"
    and r: "res =
     \<lparr>total_records = length (year_filter rs),
      total_user_messages = length (user_msgs_of rs),
      total_system_events = length (system_events_of rs),
      top_talkers = most_common 10 (Counter (map sender (user_msgs_of rs))),
      quietest_sender = Some q,
      busiest_hour = (Some (fst h), snd h),
      busiest_day_of_week = (Some (str (DOW_NAMES ! fst d)), snd d),
      peak_month = \<lparr>pm_year = Some (fst (fst ym)), pm_month = Some (snd (fst ym)),
                     pm_label = Some lbl, pm_count = snd ym\<rparr>,
      night_owl = (length (filter (\<lambda>r. is_night (timestamp r)) (user_msgs_of rs)),
                   Round2_percent (length (filter (\<lambda>r. is_night (timestamp r)) (user_msgs_of rs)))
                     (length (user_msgs_of rs))),
      longest_message = longest_of (non_media (user_msgs_of rs)),
      most_used_word = most_of (word_counter_of (non_media (user_msgs_of rs))),
      most_used_emoji = most_of (emoji_counter_of (non_media (user_msgs_of rs)))\<rparr>"
    by blast
  have hd_d: "hd (most_common 1
      (Counter (map (\<lambda>r. weekday (timestamp r)) (user_msgs_of rs)))) = d"
    using d by (auto simp: first_item_def split: list.splits)
  show "total_user_messages res = length (user_msgs_of rs)"
    and "top_talkers res = most_common 10 (Counter (map sender (user_msgs_of rs)))"
    and "fst (night_owl res) = length (filter (\<lambda>r. is_night (timestamp r)) (user_msgs_of rs))"
    and "longest_message res = longest_of (non_media (user_msgs_of rs))"
    and "most_used_word res = most_of (word_counter_of (non_media (user_msgs_of rs)))"
    and "most_used_emoji res = most_of (emoji_counter_of (non_media (user_msgs_of rs)))"
    by (simp_all add: r)
  show "min_by snd (Counter (map sender (user_msgs_of rs))) = Inr (the (quietest_sender res))"
    using q by (simp add: r)
  show "first_item (most_common 1
        (Counter (map (\<lambda>r. hour (timestamp r)) (user_msgs_of rs)))) =
      Inr (the (fst (busiest_hour res)), snd (busiest_hour res))"
    using h by (simp add: r)
  show "snd (busiest_day_of_week res) = snd (hd (most_common 1
        (Counter (map (\<lambda>r. weekday (timestamp r)) (user_msgs_of rs)))))"
    using hd_d by (simp add: r)
  show "first_item (most_common 1
        (Counter (map (\<lambda>r. (year (timestamp r), month (timestamp r))) (user_msgs_of rs)))) =
      Inr ((the (pm_year (peak_month res)), the (pm_month (peak_month res))),
           pm_count (peak_month res))"
    using ym by (simp add: r)
qed

theorem media_placeholder_counting_witness:
  "lrm_record \<in> set (year_filter [alice_record, bob_record, lrm_record]) \<and>
   is_media_message (message lrm_record) \<and> \<not> ADMIN_ACTION_RE_search (message lrm_record) \<and>
   lrm_record \<in> set (user_msgs_of [alice_record, bob_record, lrm_record]) \<and>
   lrm_record \<notin> set (non_media (user_msgs_of [alice_record, bob_record, lrm_record])) \<and>
   bob_record \<in> set (year_filter [alice_record, bob_record, lrm_record]) \<and>
   is_media_message (message bob_record) \<and> ADMIN_ACTION_RE_search (message bob_record) \<and>
   bob_record \<in> set (system_events_of [alice_record, bob_record, lrm_record]) \<and>
   bob_record \<notin> set (user_msgs_of [alice_record, bob_record, lrm_record]) \<and>
   (\<exists>res. compute_stats Pydantic_2 [alice_record, bob_record, lrm_record] = Inr res \<and>
      total_user_messages res = 2 \<and>
      fst (night_owl res) = 1 \<and>
      longest_message res = longest_of [alice_record])"
proof -
  let ?rs = "[alice_record, bob_record, lrm_record]"
  have yl: "lrm_record \<in> set (year_filter ?rs)" and yb: "bob_record \<in> set (year_filter ?rs)"
    by (simp_all add: year_three)
  have valid: "\<forall>r\<in>set ?rs. valid_datetime (timestamp r)"
    by (simp add: valid_datetime_def days_in_month_def alice_record_def bob_record_def
        lrm_record_def)
  obtain res where res: "compute_stats Pydantic_2 ?rs = Inr res"
    using compute_stats_returns [OF valid, of Pydantic_2] by (auto simp: user_msgs_three)
  have nm: "non_media [alice_record, lrm_record] = [alice_record]"
    by (simp add: non_media_def media_alice media_lrm)
  have night: "is_night (timestamp alice_record)" "\<not> is_night (timestamp lrm_record)"
    by (simp_all add: is_night_def alice_record_def lrm_record_def)
  from media_placeholder_counting [OF yl media_lrm, of Pydantic_2]
    media_placeholder_counting [OF yb media_bob, of Pydantic_2]
    admin_lrm admin_bob res yl yb media_lrm media_bob
  show ?thesis
    by (simp add: user_msgs_three nm night)
qed

theorem media_placeholder_counterexample:
  "bob_record \<in> set (year_filter [alice_record, bob_record]) \<and>
   is_media_message (message bob_record) \<and>
   bob_record \<notin> set (user_msgs_of [alice_record, bob_record]) \<and>
   compute_stats Pydantic_2 [alice_record, bob_record] = Inr example_result \<and>
   total_user_messages example_result = 1 \<and>
   top_talkers example_result = [(str ''Alice'', 1)] \<and>
   fst (night_owl example_result) = 1"
  by (simp add: year_example user_msgs_example media_bob compute_example)
     (simp add: example_result_def alice_record_def bob_record_def)

text \<open>
  C5: when no line of the input has the header shape, the empty input among them, the
  parser returns the empty list and raises nothing, and the handler answers with an error
  and never with a result; behind the checks of file name and size that error is the
  status 400 of an export that is not recognised.
\<close>

theorem no_header_is_rejected:
  assumes "\<forall>l\<in>set (splitlines text). HEADER_RE_match (rstrip_newline l) = None"
  shows "parse_chat_text text = Inr [] \<and>
    (\<exists>e. wrapped v filename raw_len (Some text) = Inl e) \<and>
    (endswith (lower filename) (str ''.txt'') \<and> raw_len \<le> 5 * 1024 * 1024 \<longrightarrow>
       wrapped v filename raw_len (Some text) = Inl (HTTPException 400
         ''No WhatsApp messages detected. Make sure this is the raw exported chat .txt.''))"
proof -
  have "parse_lines ([], None) (splitlines text @ []) = parse_lines ([], None) []"
    using assms by (rule parse_lines_no_record)
  then have p: "parse_chat_text text = Inr []"
    by (simp add: parse_chat_text_def append_current_def)
  then show ?thesis by (simp add: wrapped_def)
qed

theorem no_header_is_rejected_witness:
  "splitlines no_header_text = [str ''hello'', str ''05/01/2025, 22:15 - Alice: hi''] \<and>
   HEADER_RE_match (rstrip_newline (str ''hello'')) = None \<and>
   HEADER_RE_match (rstrip_newline (str ''05/01/2025, 22:15 - Alice: hi'')) = None \<and>
   parse_chat_text no_header_text = Inr [] \<and>
   wrapped Pydantic_2 (str ''chat.txt'') 35 (Some no_header_text) = Inl (HTTPException 400
     ''No WhatsApp messages detected. Make sure this is the raw exported chat .txt.'') \<and>
   parse_chat_text [] = Inr [] \<and>
   wrapped Pydantic_2 (str ''chat.txt'') 0 (Some []) = Inl (HTTPException 400
     ''No WhatsApp messages detected. Make sure this is the raw exported chat .txt.'')"
proof -
  have s: "splitlines no_header_text = [str ''hello'', str ''05/01/2025, 22:15 - Alice: hi'']"
    by (simp add: no_header_text_def eval_defs)
  have h: "HEADER_RE_match (rstrip_newline (str ''hello'')) = None"
    "HEADER_RE_match (rstrip_newline (str ''05/01/2025, 22:15 - Alice: hi'')) = None"
    by (simp_all add: eval_defs)
  have e: "splitlines [] = []" by (simp add: splitlines_def)
  have f: "endswith (lower (str ''chat.txt'')) (str ''.txt'')"
    by (simp add: endswith_def eval_defs)
  have a: "\<forall>l\<in>set (splitlines no_header_text). HEADER_RE_match (rstrip_newline l) = None"
    using h by (simp add: s)
  have b: "\<forall>l\<in>set (splitlines []). HEADER_RE_match (rstrip_newline l) = None"
    by (simp add: e)
  from no_header_is_rejected [OF a, of Pydantic_2 "str ''chat.txt''" 35]
    no_header_is_rejected [OF b, of Pydantic_2 "str ''chat.txt''" 0] s h f
  show ?thesis by simp
qed

text \<open>
  C7: a line without the header shape, read while no record is open, changes nothing, so
  the lines before the first header leave no trace in the result. Read while a record is
  open, such a line changes nothing when it holds only whitespace; otherwise the message of
  the open record grows by one newline and the line without the whitespace at its two ends.
\<close>

theorem continuation_lines:
  "(\<forall>l\<in>set before. HEADER_RE_match (rstrip_newline l) = None) \<longrightarrow>
     parse_lines ([], None) (before @ rest) = parse_lines ([], None) rest \<and>
     (\<forall>l\<in>set before. \<forall>records. parse_line (records, None) l = Inr (records, None)) \<and>
     (\<forall>l\<in>set before. \<forall>records r. let line = rstrip_newline l in
        if \<forall>c\<in>set line. is_space c
        then parse_line (records, Some r) l = Inr (records, Some r)
        else parse_line (records, Some r) l =
               Inr (records, Some (r\<lparr>message := message r @ [10] @ strip line\<rparr>)) \<and>
             strip line \<noteq> [] \<and> \<not> is_space (hd (strip line)) \<and> \<not> is_space (last (strip line)) \<and>
             (\<exists>a b. line = a @ strip line @ b \<and>
                (\<forall>c\<in>set a. is_space c) \<and> (\<forall>c\<in>set b. is_space c)))"
proof (intro impI conjI ballI allI)
  assume all: "\<forall>l\<in>set before. HEADER_RE_match (rstrip_newline l) = None"
  then show "parse_lines ([], None) (before @ rest) = parse_lines ([], None) rest"
    by (rule parse_lines_no_record)
  fix l assume "l \<in> set before"
  with all have nh: "HEADER_RE_match (rstrip_newline l) = None" by blast
  then show "parse_line (records, None) l = Inr (records, None)" for records
    by (rule parse_line_no_record)
  fix records r
  show "let line = rstrip_newline l in
        if \<forall>c\<in>set line. is_space c
        then parse_line (records, Some r) l = Inr (records, Some r)
        else parse_line (records, Some r) l =
               Inr (records, Some (r\<lparr>message := message r @ [10] @ strip line\<rparr>)) \<and>
             strip line \<noteq> [] \<and> \<not> is_space (hd (strip line)) \<and> \<not> is_space (last (strip line)) \<and>
             (\<exists>a b. line = a @ strip line @ b \<and>
                (\<forall>c\<in>set a. is_space c) \<and> (\<forall>c\<in>set b. is_space c))"
  proof (cases "\<forall>c\<in>set (rstrip_newline l). is_space c")
    case True
    then have "strip (rstrip_newline l) = []" by (simp add: strip_Nil_iff)
    then show ?thesis using True nh by (simp add: parse_line_def)
  next
    case False
    then have ne: "strip (rstrip_newline l) \<noteq> []" by (simp add: strip_Nil_iff)
    then show ?thesis
      using False nh strip_ends [OF ne] strip_decomp [of "rstrip_newline l"]
      by (auto simp: parse_line_def Let_def)
  qed
qed

theorem continuation_lines_witness:
  "HEADER_RE_match (rstrip_newline (str ''  more  '')) = None \<and>
   HEADER_RE_match (rstrip_newline (str ''   '')) = None \<and>
   parse_lines ([], None) ([str ''  more  '', str ''   ''] @ splitlines example_text) =
     parse_lines ([], None) (splitlines example_text) \<and>
   parse_line ([], None) (str ''  more  '') = Inr ([], None) \<and>
   parse_line ([], Some alice_record) (str ''   '') = Inr ([], Some alice_record) \<and>
   parse_line ([], Some alice_record) (str ''  more  '') =
     Inr ([], Some (alice_record\<lparr>message := str ''hello world'' @ [10] @ str ''more''\<rparr>))"
proof -
  have h: "HEADER_RE_match (rstrip_newline (str ''  more  '')) = None"
    "HEADER_RE_match (rstrip_newline (str ''   '')) = None"
    by (simp_all add: eval_defs)
  have s: "strip (rstrip_newline (str ''  more  '')) = str ''more''"
    "\<not> (\<forall>c\<in>set (rstrip_newline (str ''  more  '')). is_space c)"
    "\<forall>c\<in>set (rstrip_newline (str ''   '')). is_space c"
    by (simp_all add: eval_defs)
  have m: "message alice_record = str ''hello world''" by (simp add: alice_record_def)
  have a: "\<forall>l\<in>set [str ''  more  '', str ''   '']. HEADER_RE_match (rstrip_newline l) = None"
    using h by simp
  from continuation_lines [of "[str ''  more  '', str ''   '']" "splitlines example_text"] a
  have c: "parse_lines ([], None) ([str ''  more  '', str ''   ''] @ splitlines example_text) =
      parse_lines ([], None) (splitlines example_text)"
    and n: "\<forall>l\<in>set [str ''  more  '', str ''   '']. \<forall>records.
      parse_line (records, None) l = Inr (records, None)"
    and o: "\<forall>l\<in>set [str ''  more  '', str ''   '']. \<forall>records r. let line = rstrip_newline l in
        if \<forall>c\<in>set line. is_space c
        then parse_line (records, Some r) l = Inr (records, Some r)
        else parse_line (records, Some r) l =
               Inr (records, Some (r\<lparr>message := message r @ [10] @ strip line\<rparr>)) \<and>
             strip line \<noteq> [] \<and> \<not> is_space (hd (strip line)) \<and> \<not> is_space (last (strip line)) \<and>
             (\<exists>a b. line = a @ strip line @ b \<and>
                (\<forall>c\<in>set a. is_space c) \<and> (\<forall>c\<in>set b. is_space c))"
    by blast+
  from n have n': "parse_line ([], None) (str ''  more  '') = Inr ([], None)" by simp
  from o have "let line = rstrip_newline (str ''   '') in
        if \<forall>c\<in>set line. is_space c
        then parse_line ([], Some alice_record) (str ''   '') = Inr ([], Some alice_record)
        else True" 
    by (simp add: Let_def)
  with s(3) have o1: "parse_line ([], Some alice_record) (str ''   '') = Inr ([], Some alice_record)"
    by (simp only: Let_def if_True)
  from o have "let line = rstrip_newline (str ''  more  '') in
        if \<forall>c\<in>set line. is_space c then True
        else parse_line ([], Some alice_record) (str ''  more  '') =
               Inr ([], Some (alice_record\<lparr>message := message alice_record @ [10] @ strip line\<rparr>))"
    by (simp add: Let_def)
  with s(2) have "parse_line ([], Some alice_record) (str ''  more  '') =
      Inr ([], Some (alice_record\<lparr>message := message alice_record @ [10] @
        strip (rstrip_newline (str ''  more  ''))\<rparr>))"
    by (simp only: Let_def if_False)
  then have o2: "parse_line ([], Some alice_record) (str ''  more  '') =
     Inr ([], Some (alice_record\<lparr>message := str ''hello world'' @ [10] @ str ''more''\<rparr>))"
    by (simp only: s(1) m)
  from h c n' o1 o2 show ?thesis by blast
qed

text \<open>
  C6: the tokenizer works on the lower-cased text, in which no capital ASCII letter is
  left. The lower-cased text has exactly one list of maximal runs of the characters
  \<open>a\<close> to \<open>z\<close>, \<open>0\<close> to \<open>9\<close> and the apostrophe; the tokens are these runs in their order,
  repeated runs repeated, without the runs that are stop words or shorter than two
  characters. So no token is shorter than two characters and none is a stop word, also
  after lower-casing it again.
\<close>

theorem tokenize_spec:
  "(\<forall>c\<in>set (lower text). \<not> (65 \<le> c \<and> c \<le> 90)) \<and>
   (\<exists>runs. maximal_runs is_word_char (lower text) runs \<and>
      (\<forall>runs'. maximal_runs is_word_char (lower text) runs' \<longrightarrow> runs' = runs) \<and>
      tokenize text = filter (\<lambda>t. t \<notin> STOPWORDS \<and> 2 \<le> length t) runs) \<and>
   (\<forall>t\<in>set (tokenize text).
      2 \<le> length t \<and> t \<notin> STOPWORDS \<and> lower t \<notin> STOPWORDS \<and> (\<forall>c\<in>set t. is_word_char c))"
proof -
  let ?runs = "findall_class is_word_char (lower text)"
  have runs: "maximal_runs is_word_char (lower text) ?runs" by (rule findall_class_runs)
  have tok: "tokenize text = filter (\<lambda>t. t \<notin> STOPWORDS \<and> 2 \<le> length t) ?runs"
    by (simp add: tokenize_def Let_def Suc_le_eq numeral_2_eq_2)
  have a: "\<forall>c\<in>set (lower text). \<not> (65 \<le> c \<and> c \<le> 90)"
    using lower_no_capitals by blast
  have b: "\<exists>runs. maximal_runs is_word_char (lower text) runs \<and>
      (\<forall>runs'. maximal_runs is_word_char (lower text) runs' \<longrightarrow> runs' = runs) \<and>
      tokenize text = filter (\<lambda>t. t \<notin> STOPWORDS \<and> 2 \<le> length t) runs"
    using runs tok maximal_runs_unique by blast
  have c: "2 \<le> length t \<and> t \<notin> STOPWORDS \<and> lower t \<notin> STOPWORDS \<and>
      (\<forall>c\<in>set t. is_word_char c)" if "t \<in> set (tokenize text)" for t
  proof -
    from that have t: "t \<in> set ?runs" "t \<notin> STOPWORDS" "2 \<le> length t" by (simp_all add: tok)
    from maximal_runs_chars [OF runs t(1)] have w: "\<forall>c\<in>set t. is_word_char c" by simp
    then have "lower t = t" by (rule lower_word)
    with t w show ?thesis by simp
  qed
  from a b c show ?thesis by blast
qed

theorem tokenize_spec_witness:
  "tokenize token_text = map str [''said'', ''hello'', ''hello'', ''cat's'', ''4x4''] \<and>
   maximal_runs is_word_char (lower token_text)
     (map str [''the'', ''bro'', ''said'', ''hello'', ''hello'', ''to'', ''a'', ''cat's'', ''4x4'']) \<and>
   str ''the'' \<in> STOPWORDS \<and> str ''bro'' \<in> STOPWORDS \<and> str ''to'' \<in> STOPWORDS \<and>
   str ''said'' \<in> set (tokenize token_text) \<and> 2 \<le> length (str ''said'') \<and>
   str ''said'' \<notin> STOPWORDS \<and> lower (str ''said'') \<notin> STOPWORDS"
proof -
  let ?runs = "map str [''the'', ''bro'', ''said'', ''hello'', ''hello'', ''to'', ''a'', ''cat's'', ''4x4'']"
  have f: "findall_class is_word_char (lower token_text) = ?runs"
    by (simp add: token_text_def eval_defs)
  have r: "maximal_runs is_word_char (lower token_text) ?runs"
    using findall_class_runs [of is_word_char "lower token_text"] by (simp only: f)
  have st: "str ''the'' \<in> STOPWORDS \<and> str ''bro'' \<in> STOPWORDS \<and> str ''to'' \<in> STOPWORDS"
    by (simp add: STOPWORDS_def str_def)
  from tokenize_spec [of token_text] obtain runs where
    u: "\<forall>runs'. maximal_runs is_word_char (lower token_text) runs' \<longrightarrow> runs' = runs"
    and t: "tokenize token_text = filter (\<lambda>t. t \<notin> STOPWORDS \<and> 2 \<le> length t) runs"
    and a: "\<forall>t\<in>set (tokenize token_text).
      2 \<le> length t \<and> t \<notin> STOPWORDS \<and> lower t \<notin> STOPWORDS \<and> (\<forall>c\<in>set t. is_word_char c)"
    by blast
  from u r have "runs = ?runs" by blast
  with t have "tokenize token_text = filter (\<lambda>t. t \<notin> STOPWORDS \<and> 2 \<le> length t) ?runs"
    by simp
  also have "\<dots> = map str [''said'', ''hello'', ''hello'', ''cat's'', ''4x4'']"
    by (simp add: STOPWORDS_def str_def)
  finally have tk: "tokenize token_text = map str [''said'', ''hello'', ''hello'', ''cat's'', ''4x4'']" .
  then have m: "str ''said'' \<in> set (tokenize token_text)" by simp
  with a have "2 \<le> length (str ''said'') \<and> str ''said'' \<notin> STOPWORDS \<and>
      lower (str ''said'') \<notin> STOPWORDS" by blast
  with tk r st m show ?thesis by blast
qed

text \<open>
  C8: when there is a user message that is not a media placeholder, the longest message of
  a result is taken from the first record, in the order of the input, whose body has the
  greatest number of characters among these messages. It carries the sender of that
  record, its timestamp in the nineteen characters of the ISO form, the number of
  characters of the body, and as preview the first 200 characters of the body with a space
  in the place of every newline.
\<close>

theorem longest_message_selection:
  assumes "compute_stats v rs = Inr res" and "non_media (user_msgs_of rs) \<noteq> []"
  shows "\<exists>lr pre post.
    filter (\<lambda>r. year (timestamp r) = 2025 \<and> \<not> ADMIN_ACTION_RE_search (message r) \<and>
                \<not> is_media_message (message r)) rs = pre @ lr # post \<and>
    (\<forall>r\<in>set pre. length (message r) < length (message lr)) \<and>
    (\<forall>r\<in>set post. length (message r) \<le> length (message lr)) \<and>
    longest_message res =
      Some \<lparr>lm_sender = sender lr, lm_timestamp = isoformat (timestamp lr),
            lm_length_chars = length (message lr),
            lm_preview = take 200 (map (\<lambda>c. if c = 10 then 32 else c) (message lr))\<rparr> \<and>
    length (isoformat (timestamp lr)) = 19 \<and>
    length (take 200 (map (\<lambda>c. if c = 10 then 32 else c) (message lr))) \<le> 200 \<and>
    10 \<notin> set (take 200 (map (\<lambda>c. if c = 10 then 32 else c) (message lr)))"
proof -
  have ne: "user_msgs_of rs \<noteq> []" using assms(2) by (auto simp: non_media_def)
  from compute_stats_Inr [OF assms(1) refl ne]
  have l: "longest_message res = longest_of (non_media (user_msgs_of rs))" by auto
  from longest_of_first_max [OF assms(2)] obtain lr where
    fm: "first_max_in (\<lambda>r. length (message r)) (non_media (user_msgs_of rs)) lr"
    and lo: "longest_of (non_media (user_msgs_of rs)) =
      Some \<lparr>lm_sender = sender lr, lm_timestamp = isoformat (timestamp lr),
        lm_length_chars = length (message lr),
        lm_preview = take 200 (replace_char 10 32 (message lr))\<rparr>"
    by blast
  have "10 \<notin> set (map (\<lambda>c. if c = 10 then 32 else c) (message lr))" by auto
  then have nl: "10 \<notin> set (take 200 (map (\<lambda>c. if c = 10 then 32 else c) (message lr)))"
    by (auto dest: in_set_takeD)
  from fm l lo nl show ?thesis
    unfolding first_max_in_def non_media_user_msgs
    by (auto simp: replace_char_def length_isoformat)
qed

theorem longest_message_selection_witness:
  "\<exists>res. compute_stats Pydantic_2 [short_record, two_line_record, same_length_record] = Inr res \<and>
     longest_message res =
       Some \<lparr>lm_sender = str ''Eve'', lm_timestamp = str ''2025-03-09T08:05:59'',
             lm_length_chars = 5, lm_preview = str ''ab cd''\<rparr>"
proof -
  let ?rs = "[short_record, two_line_record, same_length_record]"
  let ?keep = "\<lambda>r. year (timestamp r) = 2025 \<and> \<not> ADMIN_ACTION_RE_search (message r) \<and>
                 \<not> is_media_message (message r)"
  have adm: "\<not> ADMIN_ACTION_RE_search (message short_record)"
    "\<not> ADMIN_ACTION_RE_search (message two_line_record)"
    "\<not> ADMIN_ACTION_RE_search (message same_length_record)"
    by (simp_all add: short_record_def two_line_record_def same_length_record_def
        eval_defs stat_defs)
  have med: "\<not> is_media_message (message short_record)"
    "\<not> is_media_message (message two_line_record)"
    "\<not> is_media_message (message same_length_record)"
    by (simp_all add: short_record_def two_line_record_def same_length_record_def
        eval_defs stat_defs)
  have yr: "year (timestamp short_record) = 2025" "year (timestamp two_line_record) = 2025"
    "year (timestamp same_length_record) = 2025"
    by (simp_all add: short_record_def two_line_record_def same_length_record_def)
  have keep: "filter ?keep ?rs = ?rs" by (simp add: adm med yr)
  have len: "length (message short_record) = 2" "length (message two_line_record) = 5"
    "length (message same_length_record) = 5"
    by (simp_all add: short_record_def two_line_record_def same_length_record_def str_def)
  have valid: "\<forall>r\<in>set ?rs. valid_datetime (timestamp r)"
    by (simp add: valid_datetime_def days_in_month_def short_record_def two_line_record_def
        same_length_record_def)
  have nm: "non_media (user_msgs_of ?rs) = ?rs"
    unfolding non_media_user_msgs by (rule keep)
  then have ne: "user_msgs_of ?rs \<noteq> []" by (auto simp: non_media_def)
  from compute_stats_returns [OF valid ne, of Pydantic_2]
  obtain res where res: "compute_stats Pydantic_2 ?rs = Inr res" by blast
  have nne: "non_media (user_msgs_of ?rs) \<noteq> []" by (simp add: nm)
  from longest_message_selection [OF res nne] obtain lr pre post where
    d: "filter ?keep ?rs = pre @ lr # post"
    and lt: "\<forall>r\<in>set pre. length (message r) < length (message lr)"
    and le: "\<forall>r\<in>set post. length (message r) \<le> length (message lr)"
    and lm: "longest_message res =
      Some \<lparr>lm_sender = sender lr, lm_timestamp = isoformat (timestamp lr),
            lm_length_chars = length (message lr),
            lm_preview = take 200 (map (\<lambda>c. if c = 10 then 32 else c) (message lr))\<rparr>"
    by blast
  from d have "?rs = pre @ lr # post" by (simp only: keep)
  then have "lr = two_line_record"
    using lt le len
    by (auto simp: Cons_eq_append_conv append_eq_Cons_conv)
  moreover have "isoformat (timestamp two_line_record) = str ''2025-03-09T08:05:59''"
    by (simp add: two_line_record_def eval_defs zpad_4 zpad_2)
  moreover have "take 200 (map (\<lambda>c. if c = 10 then 32 else c) (message two_line_record)) =
      str ''ab cd''"
    by (simp add: two_line_record_def str_def)
  moreover have "sender two_line_record = str ''Eve''" by (simp add: two_line_record_def)
  ultimately show ?thesis using res lm len by (auto simp: str_def)
qed

text \<open>
  C9: for a result on a user-message subset that is not empty. The top talkers are the
  first ten entries of the sender table, which lists the senders in the order of their
  first message with their counts, sorted by descending count, entries of equal count
  staying in the order of the table. The quietest sender has the least count, and every
  sender met before it has a greater count. The busiest hour, the busiest weekday, the peak
  month, the most used word and the most used emoji each have the greatest count among
  their keys, and every key met before them in the scan has a smaller count; word and emoji
  are absent exactly when no token and no emoji is found.
\<close>

theorem frequency_tie_breaks:
  assumes "compute_stats v rs = Inr res" and "user_msgs_of rs \<noteq> []"
  shows "length (top_talkers res) \<le> 10 \<and>
    (\<exists>full. top_talkers res = take 10 full \<and>
       mset full = mset (map (\<lambda>k. (k, count_list (map sender (user_msgs_of rs)) k))
                          (first_seen (map sender (user_msgs_of rs)))) \<and>
       sorted_wrt (\<lambda>a b. snd b \<le> snd a) full \<and>
       (\<forall>c. filter (\<lambda>kv. snd kv = c) full =
            filter (\<lambda>kv. snd kv = c)
              (map (\<lambda>k. (k, count_list (map sender (user_msgs_of rs)) k))
                 (first_seen (map sender (user_msgs_of rs)))))) \<and>
    (\<exists>q. quietest_sender res = Some q \<and> is_rarest (map sender (user_msgs_of rs)) q) \<and>
    (\<exists>h. busiest_hour res = (Some (fst h), snd h) \<and>
       is_mode (map (\<lambda>r. hour (timestamp r)) (user_msgs_of rs)) h) \<and>
    (\<exists>d. busiest_day_of_week res = (Some (str (DOW_NAMES ! fst d)), snd d) \<and> fst d < 7 \<and>
       is_mode (map (\<lambda>r. weekday (timestamp r)) (user_msgs_of rs)) d) \<and>
    (\<exists>ym. pm_year (peak_month res) = Some (fst (fst ym)) \<and>
       pm_month (peak_month res) = Some (snd (fst ym)) \<and> pm_count (peak_month res) = snd ym \<and>
       is_mode (map (\<lambda>r. (year (timestamp r), month (timestamp r))) (user_msgs_of rs)) ym) \<and>
    (case most_used_word res of
       None \<Rightarrow> concat (map (\<lambda>r. tokenize (message r)) (non_media (user_msgs_of rs))) = []
     | Some w \<Rightarrow>
         is_mode (concat (map (\<lambda>r. tokenize (message r)) (non_media (user_msgs_of rs)))) w) \<and>
    (case most_used_emoji res of
       None \<Rightarrow> concat (map (\<lambda>r. EMOJI_RE_findall (message r)) (non_media (user_msgs_of rs))) = []
     | Some e \<Rightarrow>
         is_mode (concat (map (\<lambda>r. EMOJI_RE_findall (message r)) (non_media (user_msgs_of rs)))) e)"
proof -
  define um where "um = user_msgs_of rs"
  define nm where "nm = non_media um"
  from compute_stats_Inr [OF assms(1) refl assms(2)] obtain q h d ym lbl where
    q: "min_by snd (Counter (map sender um)) = Inr q"
    and h: "first_item (most_common 1 (Counter (map (\<lambda>r. hour (timestamp r)) um))) = Inr h"
    and d: "first_item (most_common 1 (Counter (map (\<lambda>r. weekday (timestamp r)) um))) = Inr d"
    and ym: "first_item (most_common 1
        (Counter (map (\<lambda>r. (year (timestamp r), month (timestamp r))) um))) = Inr ym"
    and tt: "top_talkers res = most_common 10 (Counter (map sender um))"
    and qs: "quietest_sender res = Some q"
    and bh: "busiest_hour res = (Some (fst h), snd h)"
    and bd: "busiest_day_of_week res = (Some (str (DOW_NAMES ! fst d)), snd d)"
    and pm: "pm_year (peak_month res) = Some (fst (fst ym))"
      "pm_month (peak_month res) = Some (snd (fst ym))" "pm_count (peak_month res) = snd ym"
    and mw: "most_used_word res = most_of (word_counter_of nm)"
    and me: "most_used_emoji res = most_of (emoji_counter_of nm)"
    unfolding um_def nm_def by fastforce
  have 1: "length (top_talkers res) \<le> 10" by (simp add: tt most_common_def)
  from most_common_spec [of 10 "Counter (map sender um)"]
  have 2: "\<exists>full. top_talkers res = take 10 full \<and>
       mset full = mset (map (\<lambda>k. (k, count_list (map sender um) k))
                          (first_seen (map sender um))) \<and>
       sorted_wrt (\<lambda>a b. snd b \<le> snd a) full \<and>
       (\<forall>c. filter (\<lambda>kv. snd kv = c) full =
            filter (\<lambda>kv. snd kv = c)
              (map (\<lambda>k. (k, count_list (map sender um) k)) (first_seen (map sender um))))"
    unfolding tt Counter_eq .
  have 3: "\<exists>q. quietest_sender res = Some q \<and> is_rarest (map sender um) q"
    using qs first_min_in_Counter [OF min_by_first_min [OF q]] by blast
  have 4: "\<exists>h. busiest_hour res = (Some (fst h), snd h) \<and>
       is_mode (map (\<lambda>r. hour (timestamp r)) um) h"
    using bh first_item_most_common_key [OF h] by blast
  have dm: "is_mode (map (\<lambda>r. weekday (timestamp r)) um) d"
    by (rule first_item_most_common_key [OF d])
  then have "fst d \<in> set (map (\<lambda>r. weekday (timestamp r)) um)" by (simp add: is_mode_def)
  then have "fst d < 7" by (auto simp: weekday_less)
  with bd dm have 5: "\<exists>d. busiest_day_of_week res = (Some (str (DOW_NAMES ! fst d)), snd d) \<and>
      fst d < 7 \<and> is_mode (map (\<lambda>r. weekday (timestamp r)) um) d" by blast
  have 6: "\<exists>ym. pm_year (peak_month res) = Some (fst (fst ym)) \<and>
       pm_month (peak_month res) = Some (snd (fst ym)) \<and> pm_count (peak_month res) = snd ym \<and>
       is_mode (map (\<lambda>r. (year (timestamp r), month (timestamp r))) um) ym"
    using pm first_item_most_common_key [OF ym] by blast
  have 7: "case most_used_word res of
       None \<Rightarrow> concat (map (\<lambda>r. tokenize (message r)) nm) = []
     | Some w \<Rightarrow> is_mode (concat (map (\<lambda>r. tokenize (message r)) nm)) w"
    unfolding mw word_counter_of_eq
    using most_of_Counter [of "concat (map (\<lambda>r. tokenize (message r)) nm)"]
    by (cases "most_of (Counter (concat (map (\<lambda>r. tokenize (message r)) nm)))") simp_all
  have 8: "case most_used_emoji res of
       None \<Rightarrow> concat (map (\<lambda>r. EMOJI_RE_findall (message r)) nm) = []
     | Some e \<Rightarrow> is_mode (concat (map (\<lambda>r. EMOJI_RE_findall (message r)) nm)) e"
    unfolding me emoji_counter_of_eq
    using most_of_Counter [of "concat (map (\<lambda>r. EMOJI_RE_findall (message r)) nm)"]
    by (cases "most_of (Counter (concat (map (\<lambda>r. EMOJI_RE_findall (message r)) nm)))") simp_all
  from 1 2 3 4 5 6 7 8 show ?thesis unfolding um_def nm_def by blast
qed

theorem frequency_tie_breaks_witness:
  "(\<exists>res. compute_stats Pydantic_2 [alice_record, bob_record, lrm_record] = Inr res \<and>
      top_talkers res = [(str ''Alice'', 1), (str ''Carol'', 1)] \<and>
      quietest_sender res = Some (str ''Alice'', 1) \<and>
      busiest_hour res = (Some 22, 1) \<and>
      most_used_word res = Some (str ''hello'', 1) \<and>
      most_used_emoji res = None) \<and>
   EMOJI_RE_findall (message emoji_record) = [[127456], [128512]] \<and>
   (\<exists>res. compute_stats Pydantic_2 [emoji_record] = Inr res \<and>
      most_used_emoji res = Some ([127456], 1))"
proof -
  let ?rs = "[alice_record, bob_record, lrm_record]"
  have valid: "\<forall>r\<in>set ?rs. valid_datetime (timestamp r)"
    by (simp add: valid_datetime_def days_in_month_def alice_record_def bob_record_def
        lrm_record_def)
  have ne: "user_msgs_of ?rs \<noteq> []" by (simp add: user_msgs_three)
  from compute_stats_returns [OF valid ne, of Pydantic_2]
  obtain res where res: "compute_stats Pydantic_2 ?rs = Inr res" by blast
  have senders: "map sender (user_msgs_of ?rs) = [str ''Alice'', str ''Carol'']"
    unfolding user_msgs_three by (simp add: alice_record_def lrm_record_def)
  have hours: "map (\<lambda>r. hour (timestamp r)) (user_msgs_of ?rs) = [22, 9]"
    unfolding user_msgs_three by (simp add: alice_record_def lrm_record_def)
  have nm: "non_media (user_msgs_of ?rs) = [alice_record]"
    unfolding user_msgs_three by (simp add: non_media_def media_alice media_lrm)
  have words: "concat (map (\<lambda>r. tokenize (message r)) (non_media (user_msgs_of ?rs))) =
      [str ''hello'', str ''world'']"
    by (simp add: nm tokens_alice)
  have emojis: "concat (map (\<lambda>r. EMOJI_RE_findall (message r)) (non_media (user_msgs_of ?rs))) = []"
    by (simp add: nm emoji_alice)
  have neq: "str ''Alice'' \<noteq> str ''Carol''" "str ''hello'' \<noteq> str ''world''"
    by (simp_all add: str_def)
  have table: "map (\<lambda>k. (k, count_list [str ''Alice'', str ''Carol''] k))
      (first_seen [str ''Alice'', str ''Carol'']) = [(str ''Alice'', 1), (str ''Carol'', 1)]"
    using neq by auto
  note f = frequency_tie_breaks [OF res ne, unfolded senders hours words emojis table]
  from f [THEN conjunct2, THEN conjunct1] obtain full where
    tt: "top_talkers res = take 10 full"
    and ms: "mset full = mset [(str ''Alice'', 1::nat), (str ''Carol'', 1)]"
    and st: "\<forall>c. filter (\<lambda>kv. snd kv = c) full =
        filter (\<lambda>kv. snd kv = c) [(str ''Alice'', 1::nat), (str ''Carol'', 1)]"
    by blast
  from f [THEN conjunct2, THEN conjunct2, THEN conjunct1] obtain q where
    q: "quietest_sender res = Some q" "is_rarest [str ''Alice'', str ''Carol''] q"
    by blast
  from f [THEN conjunct2, THEN conjunct2, THEN conjunct2, THEN conjunct1] obtain h where
    h: "busiest_hour res = (Some (fst h), snd h)" "is_mode [22, 9] h"
    by blast
  note w = f [THEN conjunct2, THEN conjunct2, THEN conjunct2, THEN conjunct2, THEN conjunct2,
    THEN conjunct2, THEN conjunct1]
  note e = f [THEN conjunct2, THEN conjunct2, THEN conjunct2, THEN conjunct2, THEN conjunct2,
    THEN conjunct2, THEN conjunct2]
  have "set full = set [(str ''Alice'', 1::nat), (str ''Carol'', 1)]"
    using ms by (rule mset_eq_setD)
  then have "\<forall>kv\<in>set full. snd kv = 1" by auto
  then have keep: "filter (\<lambda>kv. snd kv = 1) full = full" by simp
  from st have "filter (\<lambda>kv. snd kv = 1) full =
      filter (\<lambda>kv. snd kv = 1) [(str ''Alice'', 1::nat), (str ''Carol'', 1)]" by (rule spec)
  also have "\<dots> = [(str ''Alice'', 1), (str ''Carol'', 1)]" by simp
  finally have full: "full = [(str ''Alice'', 1), (str ''Carol'', 1)]"
    by (simp only: keep)
  have 1: "top_talkers res = [(str ''Alice'', 1), (str ''Carol'', 1)]"
    by (simp add: tt full)
  have "q = (str ''Alice'', 1)"
    using q(2) neq(1) by (rule is_rarest_pair)
  then have 2: "quietest_sender res = Some (str ''Alice'', 1)" using q(1) by simp
  have "h = (22, 1)"
    using h(2) by (rule is_mode_pair) simp
  then have 3: "busiest_hour res = (Some 22, 1)" using h(1) by simp
  have 4: "most_used_word res = Some (str ''hello'', 1)"
  proof (cases "most_used_word res")
    case None
    with w show ?thesis by simp
  next
    case (Some x)
    with w have "is_mode [str ''hello'', str ''world''] x" by simp
    then have "x = (str ''hello'', 1)"
      using neq(2) by (rule is_mode_pair)
    with Some show ?thesis by simp
  qed
  have 5: "most_used_emoji res = None"
  proof (cases "most_used_emoji res")
    case None
    then show ?thesis .
  next
    case (Some x)
    with e have "is_mode [] x" by simp
    then show ?thesis by (simp add: is_mode_def)
  qed
  have first: "\<exists>res. compute_stats Pydantic_2 [alice_record, bob_record, lrm_record] = Inr res \<and>
      top_talkers res = [(str ''Alice'', 1), (str ''Carol'', 1)] \<and>
      quietest_sender res = Some (str ''Alice'', 1) \<and>
      busiest_hour res = (Some 22, 1) \<and>
      most_used_word res = Some (str ''hello'', 1) \<and>
      most_used_emoji res = None"
    by (rule exI [of _ res]) (simp only: res 1 2 3 4 5 simp_thms)
  have found: "EMOJI_RE_findall (message emoji_record) = [[127456], [128512]]"
    by (simp add: emoji_record_def EMOJI_RE_findall_def is_emoji_def str_def)
  have valid_e: "\<forall>r\<in>set [emoji_record]. valid_datetime (timestamp r)"
    by (simp add: valid_datetime_def days_in_month_def emoji_record_def)
  have adm_e: "\<not> ADMIN_ACTION_RE_search (message emoji_record)"
    by (simp add: emoji_record_def eval_defs stat_defs)
  have med_e: "\<not> is_media_message (message emoji_record)"
    by (simp add: emoji_record_def eval_defs stat_defs)
  have um_e: "user_msgs_of [emoji_record] = [emoji_record]"
    by (simp add: user_msgs_of_filter year_filter_def adm_e) (simp add: emoji_record_def)
  have ne_e: "user_msgs_of [emoji_record] \<noteq> []" by (simp add: um_e)
  have emojis_e: "concat (map (\<lambda>r. EMOJI_RE_findall (message r))
      (non_media (user_msgs_of [emoji_record]))) = [[127456], [128512]]"
    unfolding um_e by (simp add: non_media_def med_e found)
  from compute_stats_returns [OF valid_e ne_e, of Pydantic_2]
  obtain res' where res': "compute_stats Pydantic_2 [emoji_record] = Inr res'" by blast
  note g = frequency_tie_breaks [OF res' ne_e, unfolded emojis_e]
  note e' = g [THEN conjunct2, THEN conjunct2, THEN conjunct2, THEN conjunct2, THEN conjunct2,
    THEN conjunct2, THEN conjunct2]
  have 6: "most_used_emoji res' = Some ([127456], 1)"
  proof (cases "most_used_emoji res'")
    case None
    with e' show ?thesis by simp
  next
    case (Some x)
    with e' have "is_mode [[127456], [128512::nat]] x" by simp
    then have "x = ([127456], 1)" by (rule is_mode_pair) simp
    with Some show ?thesis by simp
  qed
  have second: "\<exists>res. compute_stats Pydantic_2 [emoji_record] = Inr res \<and>
      most_used_emoji res = Some ([127456], 1)"
    by (rule exI [of _ res']) (simp only: res' 6 simp_thms)
  from first found second show ?thesis by (intro conjI)
qed

end
